theory Spec2Isabelle
  imports Main "HOL-Library.AList"
begin

section \<open>Go values and the library functions the manager calls\<close>

text \<open>
  A Go \<open>error\<close> is modelled by its message: \<open>None\<close> is \<open>nil\<close>, \<open>Some msg\<close> is an error
  whose \<open>Error()\<close> string is \<open>msg\<close>.
\<close>

type_synonym error = "string option"

definition errors_New :: "string \<Rightarrow> error" where
  "errors_New msg = Some msg"

text \<open>\<open>errors.Wrap(err, message)\<close>: \<open>nil\<close> stays \<open>nil\<close>, otherwise the message is prefixed.\<close>

definition errors_Wrap :: "error \<Rightarrow> string \<Rightarrow> error" where
  "errors_Wrap err message =
     (case err of None \<Rightarrow> None | Some e \<Rightarrow> Some (message @ '': '' @ e))"

text \<open>
  A call of a Go function ends in one of three ways: it returns its results, it blocks
  for ever (a channel operation no other goroutine ever matches), or it panics.
\<close>

datatype 'a outcome = Returned 'a | Blocked | Panicked

text \<open>\<open>strings.Split(s, sep)\<close> for a separator of one character; \<open>Split("", ",")\<close> is \<open>[""]\<close>.\<close>

fun strings_Split :: "char \<Rightarrow> string \<Rightarrow> string list" where
  "strings_Split sep [] = [[]]"
| "strings_Split sep (c # cs) =
     (if c = sep then [] # strings_Split sep cs
      else (case strings_Split sep cs of
              [] \<Rightarrow> [[c]]
            | w # ws \<Rightarrow> (c # w) # ws))"

text \<open>\<open>strings.Join(elems, "/")\<close>.\<close>

fun strings_Join :: "string list \<Rightarrow> string" where
  "strings_Join [] = []"
| "strings_Join [e] = e"
| "strings_Join (e # es) = e @ ''/'' @ strings_Join es"

text \<open>\<open>strings.Replace(s, ":", "-", -1)\<close>: every colon becomes a dash.\<close>

definition strings_Replace_colon :: "string \<Rightarrow> string" where
  "strings_Replace_colon s = map (\<lambda>c. if c = CHR '':'' then CHR ''-'' else c) s"

text \<open>\<open>strings.HasSuffix\<close> compares the tail of the string; \<open>strings.TrimSuffix\<close> cuts it off.\<close>

definition strings_HasSuffix :: "string \<Rightarrow> string \<Rightarrow> bool" where
  "strings_HasSuffix s suf =
     (length suf \<le> length s \<and> drop (length s - length suf) s = suf)"

definition strings_TrimSuffix :: "string \<Rightarrow> string \<Rightarrow> string" where
  "strings_TrimSuffix s suf =
     (if strings_HasSuffix s suf then take (length s - length suf) s else s)"

text \<open>
  \<open>filepath.Ext\<close> scans the path from its end, stops at a separator, and returns the
  suffix that starts at the last dot of the final element. \<open>ext_scan\<close> is that loop on the
  reversed path, \<open>acc\<close> the characters already passed.
\<close>

fun ext_scan :: "string \<Rightarrow> string \<Rightarrow> string" where
  "ext_scan [] acc = []"
| "ext_scan (c # cs) acc =
     (if c = CHR ''/'' then []
      else if c = CHR ''.'' then c # acc
      else ext_scan cs (c # acc))"

definition filepath_Ext :: "string \<Rightarrow> string" where
  "filepath_Ext path = ext_scan (rev path) []"

text \<open>
  \<open>filepath.Clean\<close> on Unix, element by element: empty elements and \<open>.\<close> are dropped, a
  \<open>..\<close> removes the element before it when that one is not itself \<open>..\<close>, is dropped at the
  root, and is kept otherwise; an empty result is \<open>.\<close>.
\<close>

definition clean_step :: "bool \<Rightarrow> string list \<Rightarrow> string \<Rightarrow> string list" where
  "clean_step rooted stack e =
     (if e = [] \<or> e = ''.'' then stack
      else if e = ''..'' then
        (if stack \<noteq> [] \<and> last stack \<noteq> ''..'' then butlast stack
         else if rooted then stack
         else stack @ [e])
      else stack @ [e])"

definition filepath_Clean :: "string \<Rightarrow> string" where
  "filepath_Clean path =
     (if path = [] then ''.''
      else
        (let rooted = (hd path = CHR ''/'');
             stack = foldl (clean_step rooted) [] (strings_Split (CHR ''/'') path);
             out = (if rooted then ''/'' else []) @ strings_Join stack
         in if out = [] then ''.'' else out))"

text \<open>\<open>filepath.Join\<close>: leading empty elements are skipped, the rest joined and cleaned.\<close>

definition filepath_Join :: "string list \<Rightarrow> string" where
  "filepath_Join elem =
     (case dropWhile (\<lambda>e. e = []) elem of
        [] \<Rightarrow> []
      | es \<Rightarrow> filepath_Clean (strings_Join es))"

section \<open>The manager and its status\<close>

text \<open>
  Modelled from the spec: the phase names of package \<open>types\<close> (declared in another package). The spec lists them as Init, ClusterBundle, NodeBundle, Packaging,
  Done.
\<close>

datatype ManagerPhase =
    ManagerPhaseInit
  | ManagerPhaseClusterBundle
  | ManagerPhaseNodeBundle
  | ManagerPhasePackaging
  | ManagerPhaseDone

text \<open>
  Modelled from the spec: \<open>ManagerStatus\<close> and its setters (declared in another file of the package). The spec gives it a phase name, an integer progress percentage, an optional
  error message and the final archive's name and size; each setter stores its argument.
\<close>

record ManagerStatus =
  Phase :: "ManagerPhase option"
  Progress :: int
  ErrorMessage :: "string option"
  Filename :: "string option"
  Filesize :: "int option"

definition SetPhase :: "ManagerPhase \<Rightarrow> ManagerStatus \<Rightarrow> ManagerStatus" where
  "SetPhase p s = s\<lparr>Phase := Some p\<rparr>"

definition SetError :: "string \<Rightarrow> ManagerStatus \<Rightarrow> ManagerStatus" where
  "SetError e s = s\<lparr>ErrorMessage := Some e\<rparr>"

definition SetProgress :: "int \<Rightarrow> ManagerStatus \<Rightarrow> ManagerStatus" where
  "SetProgress n s = s\<lparr>Progress := n\<rparr>"

definition SetFileinfo :: "string \<Rightarrow> int \<Rightarrow> ManagerStatus \<Rightarrow> ManagerStatus" where
  "SetFileinfo name size' s = s\<lparr>Filename := Some name, Filesize := Some size'\<rparr>"

text \<open>
  What the manager does to the outside, collected oldest first in the \<open>trace\<close> field of
  the state: the log lines, one constructor for each \<open>logrus\<close> call of the source with
  the arguments of the call, and the calls that change something outside the process.
\<close>

datatype event =
    RunningPhase ManagerPhase
  | PhaseFailed ManagerPhase string
  | PhaseSucceeded ManagerPhase int
  | BundleReady string
  | CollectError string
  | GeneratingClusterBundle
  | CreateLogFailed
  | ExpectedBundles "(string \<times> string) list"
  | AllBundlesReceived
  | CompleteNode string
  | UnknownNode string
  | AllNodesCompleted
  | InvalidNodeBundle string
  | MkdirAll string
  | SetupSignalHandler
  | HttpServerRun
  | CreateFile string
  | DumpCluster string
  | AgentsCreate string string
  | AgentsCleanup
  | ChanSend
  | Rename string string
  | Exec string "string list"

text \<open>
  The level, the format string and the arguments of each log line, as the source writes
  them (\<open>logrus.Error(err)\<close> has no format string); \<open>None\<close> for an event that is not a
  log line.
\<close>

datatype level = DebugLevel | InfoLevel | WarnLevel | ErrorLevel

datatype arg = Str string | Num int | PhaseName ManagerPhase | Nodes "(string \<times> string) list"

fun log_line :: "event \<Rightarrow> (level \<times> string \<times> arg list) option" where
  "log_line (RunningPhase p) = Some (InfoLevel, ''running phase %s'', [PhaseName p])"
| "log_line (PhaseFailed p err) =
     Some (ErrorLevel, ''failed to run phase %s: %s'', [PhaseName p, Str err])"
| "log_line (PhaseSucceeded p n) =
     Some (InfoLevel, ''succeed to run phase %s. Progress (%d).'', [PhaseName p, Num n])"
| "log_line (BundleReady file) =
     Some (InfoLevel, ''support bundle %s ready to download'', [Str file])"
| "log_line (CollectError err) = Some (ErrorLevel, [], [Str err])"
| "log_line GeneratingClusterBundle = Some (DebugLevel, ''generating cluster bundle...'', [])"
| "log_line CreateLogFailed =
     Some (ErrorLevel, ''Failed to create bundle generation log'', [])"
| "log_line (ExpectedBundles nodes) =
     Some (DebugLevel, ''expected bundles from nodes: %+v'', [Nodes nodes])"
| "log_line AllBundlesReceived = Some (InfoLevel, ''all node bundles are received.'', [])"
| "log_line (CompleteNode node) = Some (DebugLevel, ''complete node %s'', [Str node])"
| "log_line (UnknownNode node) =
     Some (WarnLevel, ''complete an unknown node %s'', [Str node])"
| "log_line AllNodesCompleted = Some (DebugLevel, ''all nodes are completed.'', [])"
| "log_line (InvalidNodeBundle err) = Some (ErrorLevel, [], [Str err])"
| "log_line e = None"

datatype Context = SignalContext

text \<open>
  The fields of \<open>SupportBundleManager\<close>. The client handles (\<open>restConfig\<close>, \<open>k8s\<close>,
  \<open>k8sMetrics\<close>, \<open>discovery\<close>, \<open>state\<close>) are external objects: what their calls return is
  part of the environment below. \<open>context'\<close> and \<open>ch\<close> are \<open>None\<close> while the Go field is
  \<open>nil\<close>; \<open>expectedNodes\<close> is the Go map as an association list (\<open>[]\<close> for the nil and
  for the empty map, which the code does not tell apart). \<open>nodesLock\<close> is what makes
  each \<open>completeNode\<close> call atomic. \<open>trace\<close> is not a Go field.
\<close>

record SupportBundleManager =
  Namespaces :: "string list"
  NamespaceList :: string
  BundleName :: string
  bundleFileName :: string
  OutputDir :: string
  WaitTimeout :: int
  ManagerPodIP :: string
  Standalone :: bool
  ImageName :: string
  ImagePullPolicy :: string
  KubeConfig :: string
  PodNamespace :: string
  NodeSelector :: string
  context' :: "Context option"
  status :: ManagerStatus
  ch :: "unit option"
  done' :: bool
  expectedNodes :: "(string \<times> string) list"
  trace :: "event list"

definition emit :: "event \<Rightarrow> SupportBundleManager \<Rightarrow> SupportBundleManager" where
  "emit e m = m\<lparr>trace := trace m @ [e]\<rparr>"

section \<open>The node set tracker\<close>

text \<open>
  \<open>completeNode\<close>, run under \<open>nodesLock\<close>. The send on the unbuffered channel \<open>m.ch\<close>
  completes only when the channel exists and a receiver takes the value: \<open>receiver\<close>
  says whether the control thread is (or will be) receiving on \<open>m.ch\<close>. A send that
  nobody receives blocks the caller, \<open>done\<close> still unset and the lock still held. The Go
  function has no result, so a returning call yields \<open>()\<close>.
\<close>

definition completeNode ::
  "bool \<Rightarrow> SupportBundleManager \<Rightarrow> string \<Rightarrow> unit outcome \<times> SupportBundleManager" where
  "completeNode receiver m node =
     (let ok = (map_of (expectedNodes m) node \<noteq> None);
          m1 = (if ok
                then (emit (CompleteNode node) m)
                       \<lparr>expectedNodes := AList.delete node (expectedNodes m)\<rparr>
                else emit (UnknownNode node) m)
      in if expectedNodes m1 = [] then
           (if \<not> done' m1 then
              (let m2 = emit AllNodesCompleted m1
               in if ch m2 \<noteq> None \<and> receiver
                  then (Returned (), (emit ChanSend m2)\<lparr>done' := True\<rparr>)
                  else (Blocked, m2))
            else (Returned (), m1))
         else (Returned (), m1))"

text \<open>
  A sequence of \<open>completeNode\<close> calls made by the request handlers, in the order in which
  they take the lock, while a receiver waits on the channel until the first send and
  nobody receives after it. A call that blocks keeps the lock, so no later call runs.
  The result counts the sends that completed.
\<close>

definition is_send :: "event \<Rightarrow> bool" where
  "is_send e = (e = ChanSend)"

definition sends :: "SupportBundleManager \<Rightarrow> nat" where
  "sends m = length (filter is_send (trace m))"

fun completeNodes ::
  "bool \<Rightarrow> SupportBundleManager \<Rightarrow> string list \<Rightarrow> unit outcome \<times> SupportBundleManager" where
  "completeNodes receiver m [] = (Returned (), m)"
| "completeNodes receiver m (node # nodes) =
     (case completeNode receiver m node of
        (Returned u, m') \<Rightarrow> completeNodes (receiver \<and> sends m' = sends m) m' nodes
      | (Blocked, m') \<Rightarrow> (Blocked, m')
      | (Panicked, m') \<Rightarrow> (Panicked, m'))"

section \<open>The environment\<close>

text \<open>
  What the calls into the cluster, the file system and the operating system return. Each
  of them is made at most once in a run, so its result is a function of its arguments.
  \<open>handler_calls\<close> lists the nodes for which the request handlers call \<open>completeNode\<close>
  once the agents run, in the order in which the calls take the lock;
  \<open>context_cancelled\<close> says whether the signal context is ever cancelled;
  \<open>zip_valid\<close> is the format check of \<open>archive/zip\<close> on a file long enough to hold a
  directory, and \<open>node_bundle_path\<close> gives, for the working directory and a node, the
  file that holds the node's upload.
\<close>

record env =
  os_TempDir :: string
  os_MkdirAll :: "string \<Rightarrow> error"
  rest_InClusterConfig :: error
  client_NewKubernetesClient :: error
  client_NewMetricsClient :: error
  client_NewDiscoveryClient :: error
  utils_PodNamespace :: string
  state_GetState :: "string \<Rightarrow> string \<Rightarrow> string \<times> error"
  SupportBundleStateGenerating :: string
  k8s_GetNamespace :: "string \<Rightarrow> string \<times> error"
  k8s_GetKubernetesVersion :: error
  state_GetSupportBundle :: "string \<Rightarrow> string \<Rightarrow> error"
  utils_Now :: string
  os_Create :: "string \<Rightarrow> error"
  k8s_GetNodesListByLabels :: "string \<Rightarrow> string list \<times> error"
  agents_Create :: "string \<Rightarrow> string \<Rightarrow> error"
  agents_Cleanup :: error
  handler_calls :: "string list"
  os_Rename :: "string \<Rightarrow> string \<Rightarrow> error"
  exec_Run :: "string \<Rightarrow> string list \<Rightarrow> error"
  os_Stat :: "string \<Rightarrow> int \<times> error"
  context_cancelled :: bool
  zip_valid :: "string \<Rightarrow> bool"
  node_bundle_path :: "string \<Rightarrow> string \<Rightarrow> string"

section \<open>Paths of the bundle\<close>

definition getWorkingDir :: "SupportBundleManager \<Rightarrow> string" where
  "getWorkingDir m = filepath_Join [OutputDir m, ''bundle'']"

definition getBundlefile :: "SupportBundleManager \<Rightarrow> string" where
  "getBundlefile m = filepath_Join [OutputDir m, bundleFileName m]"

definition getBundlefilesize :: "env \<Rightarrow> SupportBundleManager \<Rightarrow> int \<times> error" where
  "getBundlefilesize env m =
     (case os_Stat env (getBundlefile m) of
        (sz, Some e) \<Rightarrow> (0, Some e)
      | (sz, None) \<Rightarrow> (sz, None))"

section \<open>Phase Init\<close>

definition check :: "env \<Rightarrow> SupportBundleManager \<Rightarrow> error \<times> SupportBundleManager" where
  "check env m =
     (if (case Namespaces m of [] \<Rightarrow> True | n # ns \<Rightarrow> length n = 0)
      then (errors_New ''namespace is not specified'', m)
      else if BundleName m = [] then (errors_New ''support bundle name is not specified'', m)
      else if ManagerPodIP m = [] then (errors_New ''manager pod IP is not specified'', m)
      else if ImageName m = [] then (errors_New ''image name is not specified'', m)
      else if ImagePullPolicy m = [] then (errors_New ''image pull policy is not specified'', m)
      else
        (let m1 = (if OutputDir m = []
                   then m\<lparr>OutputDir := filepath_Join [os_TempDir env, ''support-bundle-kit'']\<rparr>
                   else m);
             m2 = emit (MkdirAll (getWorkingDir m1)) m1
         in case os_MkdirAll env (getWorkingDir m1) of
              Some e \<Rightarrow> (Some e, m2)
            | None \<Rightarrow> (None, m2)))"

definition initClients :: "env \<Rightarrow> SupportBundleManager \<Rightarrow> error \<times> SupportBundleManager" where
  "initClients env m =
     (case rest_InClusterConfig env of
        Some e \<Rightarrow> (Some e, m)
      | None \<Rightarrow>
          (case client_NewKubernetesClient env of
             Some e \<Rightarrow> (Some e, m)
           | None \<Rightarrow>
               (case client_NewMetricsClient env of
                  Some e \<Rightarrow> (Some e, m)
                | None \<Rightarrow>
                    (case client_NewDiscoveryClient env of
                       Some e \<Rightarrow> (Some e, m)
                     | None \<Rightarrow> (None, m)))))"

definition phaseInit :: "env \<Rightarrow> SupportBundleManager \<Rightarrow> error \<times> SupportBundleManager" where
  "phaseInit env m =
     (let m0 = m\<lparr>Namespaces := strings_Split (CHR '','') (NamespaceList m)\<rparr>
      in case check env m0 of
           (Some e, m1) \<Rightarrow> (Some e, m1)
         | (None, m1) \<Rightarrow>
             (let m2 = (emit SetupSignalHandler m1)\<lparr>context' := Some SignalContext\<rparr>
              in case initClients env m2 of
                   (Some e, m3) \<Rightarrow> (Some e, m3)
                 | (None, m3) \<Rightarrow>
                     (let m4 = m3\<lparr>PodNamespace := utils_PodNamespace env\<rparr>
                      in case state_GetState env (PodNamespace m4) (BundleName m4) of
                           (st, Some e) \<Rightarrow> (Some e, m4)
                         | (st, None) \<Rightarrow>
                             if st \<noteq> SupportBundleStateGenerating env
                             then (Some (''invalid start state '' @ st), m4)
                             else (None, emit HttpServerRun m4))))"

section \<open>Phase ClusterBundle\<close>

text \<open>
  \<open>GenerateClusterBundle\<close> up to the name it returns. The dumps of the YAML files and
  the logs report their failures to the error log only and are one event here.
\<close>

definition GenerateClusterBundle ::
  "env \<Rightarrow> SupportBundleManager \<Rightarrow> string \<Rightarrow> (string \<times> error) \<times> SupportBundleManager" where
  "GenerateClusterBundle env m bundleDir =
     (let m0 = emit GeneratingClusterBundle m
      in case k8s_GetNamespace env (PodNamespace m0) of
           (uid, Some e) \<Rightarrow> (([], errors_Wrap (Some e) ''cannot get harvester namespace''), m0)
         | (uid, None) \<Rightarrow>
             (case k8s_GetKubernetesVersion env of
                Some e \<Rightarrow> (([], errors_Wrap (Some e) ''cannot get kubernetes version''), m0)
              | None \<Rightarrow>
                  (case state_GetSupportBundle env (PodNamespace m0) (BundleName m0) of
                     Some e \<Rightarrow> (([], errors_Wrap (Some e) ''cannot get support bundle''), m0)
                   | None \<Rightarrow>
                       (let bundleName = ''supportbundle_'' @ uid @ ''_''
                              @ strings_Replace_colon (utils_Now env) @ ''.zip'';
                            errLog = filepath_Join [bundleDir, ''bundleGenerationError.log''];
                            m1 = emit (CreateFile errLog) m0
                        in case os_Create env errLog of
                             Some e \<Rightarrow>
                               (([], Some e), emit CreateLogFailed m1)
                           | None \<Rightarrow> ((bundleName, None), emit (DumpCluster bundleDir) m1)))))"

definition phaseCollectClusterBundle ::
  "env \<Rightarrow> SupportBundleManager \<Rightarrow> error \<times> SupportBundleManager" where
  "phaseCollectClusterBundle env m =
     (case GenerateClusterBundle env m (getWorkingDir m) of
        ((bundleName, Some e), m1) \<Rightarrow>
          (errors_Wrap (Some e) ''fail to generate cluster bundle'', m1)
      | ((bundleName, None), m1) \<Rightarrow> (None, m1\<lparr>bundleFileName := bundleName\<rparr>))"

section \<open>Phase NodeBundle\<close>

definition refreshNodes :: "env \<Rightarrow> SupportBundleManager \<Rightarrow> error \<times> SupportBundleManager" where
  "refreshNodes env m =
     (case k8s_GetNodesListByLabels env (NodeSelector m) of
        (items, Some e) \<Rightarrow> (Some e, m)
      | (items, None) \<Rightarrow>
          if length items = 0 then (errors_New ''no nodes are found'', m)
          else (None, m\<lparr>expectedNodes := fold (\<lambda>name. AList.update name []) items []\<rparr>))"

text \<open>
  The receive \<open><-m.ch\<close> of the control thread. While it waits, the handlers' calls of
  \<open>completeNode\<close> run one after the other; the first one that sends releases the control
  thread. When the calls run out and none has sent, the control thread stays blocked:
  nothing else in the program sends on \<open>m.ch\<close> or closes it. The calls that come after
  the send run beside the later phases; they find the set empty and \<open>done\<close> set, so all
  they do is log a warning, and they are left out of the state.
\<close>

fun receive_ch ::
  "SupportBundleManager \<Rightarrow> string list \<Rightarrow> unit outcome \<times> SupportBundleManager" where
  "receive_ch m [] = (Blocked, m)"
| "receive_ch m (node # nodes) =
     (case completeNode True m node of
        (Returned u, m') \<Rightarrow>
          if sends m' = sends m then receive_ch m' nodes else (Returned (), m')
      | (Blocked, m') \<Rightarrow> (Blocked, m')
      | (Panicked, m') \<Rightarrow> (Panicked, m'))"

definition collectNodeBundles ::
  "env \<Rightarrow> SupportBundleManager \<Rightarrow> error outcome \<times> SupportBundleManager" where
  "collectNodeBundles env m =
     (let m0 = m\<lparr>ch := Some ()\<rparr>
      in case refreshNodes env m0 of
           (Some e, m1) \<Rightarrow> (Returned (Some e), m1)
         | (None, m1) \<Rightarrow>
             (let m2 = emit (ExpectedBundles (expectedNodes m1)) m1;
                  url = ''http://'' @ ManagerPodIP m2 @ '':8080'';
                  m3 = emit (AgentsCreate (ImageName m2) url) m2
              in case agents_Create env (ImageName m2) url of
                   Some e \<Rightarrow> (Returned (Some e), m3)
                 | None \<Rightarrow>
                     (case receive_ch m3 (handler_calls env) of
                        (Returned u, m4) \<Rightarrow>
                          (let m5 = emit AllBundlesReceived m4;
                               m6 = emit AgentsCleanup m5
                           in case agents_Cleanup env of
                                Some e \<Rightarrow>
                                  (Returned (errors_Wrap (Some e)
                                     ''fail to cleanup agent daemonset''), m6)
                              | None \<Rightarrow> (Returned None, m6))
                      | (Blocked, m4) \<Rightarrow> (Blocked, m4)
                      | (Panicked, m4) \<Rightarrow> (Panicked, m4))))"

definition phaseCollectNodeBundles ::
  "env \<Rightarrow> SupportBundleManager \<Rightarrow> error outcome \<times> SupportBundleManager" where
  "phaseCollectNodeBundles env m =
     (case collectNodeBundles env m of
        (Returned (Some e), m1) \<Rightarrow> (Returned None, emit (CollectError e) m1)
      | (Returned None, m1) \<Rightarrow> (Returned None, m1)
      | (Blocked, m1) \<Rightarrow> (Blocked, m1)
      | (Panicked, m1) \<Rightarrow> (Panicked, m1))"

section \<open>Phases Packaging and Done\<close>

definition compressBundle :: "env \<Rightarrow> SupportBundleManager \<Rightarrow> error \<times> SupportBundleManager" where
  "compressBundle env m =
     (let bundleDir = strings_TrimSuffix (bundleFileName m) (filepath_Ext (getBundlefile m));
          bundleDirPath = filepath_Join [OutputDir m, bundleDir];
          m1 = emit (Rename (getWorkingDir m) bundleDirPath) m
      in case os_Rename env (getWorkingDir m) bundleDirPath of
           Some e \<Rightarrow> (errors_Wrap (Some e) ''fail to compress bundle'', m1)
         | None \<Rightarrow>
             (let argv = [''zip'', ''-r'', getBundlefile m1, bundleDir];
                  m2 = emit (Exec (OutputDir m1) argv) m1
              in case exec_Run env (OutputDir m1) argv of
                   Some e \<Rightarrow> (errors_Wrap (Some e) ''fail to compress bundle'', m2)
                 | None \<Rightarrow>
                     (case getBundlefilesize env m2 of
                        (sz, Some e) \<Rightarrow>
                          (errors_Wrap (Some e) ''fail to get bundle file size'', m2)
                      | (sz, None) \<Rightarrow>
                          (None, m2\<lparr>status := SetFileinfo (bundleFileName m2) sz (status m2)\<rparr>))))"

definition phasePackaging :: "env \<Rightarrow> SupportBundleManager \<Rightarrow> error \<times> SupportBundleManager" where
  "phasePackaging env m = compressBundle env m"

definition phaseDone :: "SupportBundleManager \<Rightarrow> error \<times> SupportBundleManager" where
  "phaseDone m =
     (None, emit (BundleReady (getBundlefile m)) m)"

section \<open>The phase loop\<close>

type_synonym action = "SupportBundleManager \<Rightarrow> error outcome \<times> SupportBundleManager"

text \<open>A phase that has no blocking operation always returns.\<close>

definition returns :: "(SupportBundleManager \<Rightarrow> error \<times> SupportBundleManager) \<Rightarrow> action" where
  "returns f m = (case f m of (e, m') \<Rightarrow> (Returned e, m'))"

text \<open>
  The loop of \<open>Run\<close> over the remaining phases: \<open>i\<close> is the index of the first of them,
  \<open>n\<close> is \<open>len(phases)\<close>. An error ends the loop (\<open>break\<close>).
\<close>

fun run_phases ::
  "(ManagerPhase \<times> action) list \<Rightarrow> nat \<Rightarrow> nat \<Rightarrow> SupportBundleManager
     \<Rightarrow> unit outcome \<times> SupportBundleManager" where
  "run_phases [] i n m = (Returned (), m)"
| "run_phases ((name, run) # rest) i n m =
     (let m1 = emit (RunningPhase name) m;
          m2 = m1\<lparr>status := SetPhase name (status m1)\<rparr>
      in case run m2 of
           (Returned (Some err), m3) \<Rightarrow>
             (Returned (),
              emit (PhaseFailed name err) (m3\<lparr>status := SetError err (status m3)\<rparr>))
         | (Returned None, m3) \<Rightarrow>
             (let progress = 100 * (int i + 1) div int n;
                  m4 = m3\<lparr>status := SetProgress progress (status m3)\<rparr>;
                  m5 = emit (PhaseSucceeded name progress) m4
              in run_phases rest (i + 1) n m5)
         | (Blocked, m3) \<Rightarrow> (Blocked, m3)
         | (Panicked, m3) \<Rightarrow> (Panicked, m3))"

definition phases :: "env \<Rightarrow> (ManagerPhase \<times> action) list" where
  "phases env =
     [(ManagerPhaseInit, returns (phaseInit env)),
      (ManagerPhaseClusterBundle, returns (phaseCollectClusterBundle env)),
      (ManagerPhaseNodeBundle, phaseCollectNodeBundles env),
      (ManagerPhasePackaging, returns (phasePackaging env)),
      (ManagerPhaseDone, returns phaseDone)]"

text \<open>
  \<open>Run\<close>: the loop, then the receive \<open><-m.context.Done()\<close>. \<open>m.context\<close> is assigned in
  \<open>phaseInit\<close> only; calling \<open>Done\<close> on the nil interface panics.
\<close>

definition Run :: "env \<Rightarrow> SupportBundleManager \<Rightarrow> error outcome \<times> SupportBundleManager" where
  "Run env m =
     (case run_phases (phases env) 0 (length (phases env)) m of
        (Returned u, m1) \<Rightarrow>
          (case context' m1 of
             None \<Rightarrow> (Panicked, m1)
           | Some c \<Rightarrow> if context_cancelled env then (Returned None, m1) else (Blocked, m1))
      | (Blocked, m1) \<Rightarrow> (Blocked, m1)
      | (Panicked, m1) \<Rightarrow> (Panicked, m1))"

section \<open>The ingestion endpoint\<close>

text \<open>
  \<open>zip.OpenReader\<close> of the Go library: it fails when the file cannot be opened, with
  \<open>zip: not a valid zip file\<close> when the file is shorter than the 22 bytes of an
  end-of-directory record (the empty file among them), and otherwise when the format
  check fails. The file system maps a path to the file's bytes.
\<close>

type_synonym files = "string \<Rightarrow> string option"

definition zip_OpenReader :: "env \<Rightarrow> files \<Rightarrow> string \<Rightarrow> error" where
  "zip_OpenReader env fs file =
     (case fs file of
        None \<Rightarrow> Some ''open: no such file or directory''
      | Some bytes \<Rightarrow>
          if length bytes < 22 then Some ''zip: not a valid zip file''
          else if zip_valid env bytes then None
          else Some ''zip: not a valid zip file'')"

definition verifyNodeBundle :: "env \<Rightarrow> files \<Rightarrow> string \<Rightarrow> error" where
  "verifyNodeBundle env fs file = zip_OpenReader env fs file"

datatype response = ResponseOK | ResponseError string

text \<open>
  Modelled from the spec: the request handler of the ingestion endpoint (the HTTP server
  is in another file of the package). Following the spec's three steps, it persists the
  stream to the node's path under the working directory, validates the file with
  \<open>verifyNodeBundle\<close> and, when that fails, logs the failure, discards the artifact and
  answers with an error without calling \<open>completeNode\<close>; when the file is valid it
  calls \<open>completeNode\<close> and answers with success.
\<close>

definition handleNodeBundle ::
  "env \<Rightarrow> bool \<Rightarrow> files \<Rightarrow> SupportBundleManager \<Rightarrow> string \<Rightarrow> string
     \<Rightarrow> response outcome \<times> files \<times> SupportBundleManager" where
  "handleNodeBundle env receiver fs m nodeID body =
     (let file = node_bundle_path env (getWorkingDir m) nodeID;
          fs1 = fs(file \<mapsto> body)
      in case verifyNodeBundle env fs1 file of
           Some e \<Rightarrow>
             (Returned (ResponseError e), fs1(file := None), emit (InvalidNodeBundle e) m)
         | None \<Rightarrow>
             (case completeNode receiver m nodeID of
                (Returned u, m') \<Rightarrow> (Returned ResponseOK, fs1, m')
              | (Blocked, m') \<Rightarrow> (Blocked, fs1, m')
              | (Panicked, m') \<Rightarrow> (Panicked, fs1, m')))"

section \<open>Reading a trace\<close>

text \<open>The phases the loop entered, those it completed with their progress, and those that failed.\<close>

fun phases_entered :: "event list \<Rightarrow> ManagerPhase list" where
  "phases_entered [] = []"
| "phases_entered (RunningPhase p # es) = p # phases_entered es"
| "phases_entered (e # es) = phases_entered es"

fun phases_succeeded :: "event list \<Rightarrow> (ManagerPhase \<times> int) list" where
  "phases_succeeded [] = []"
| "phases_succeeded (PhaseSucceeded p n # es) = (p, n) # phases_succeeded es"
| "phases_succeeded (e # es) = phases_succeeded es"

fun phases_failed :: "event list \<Rightarrow> (ManagerPhase \<times> string) list" where
  "phases_failed [] = []"
| "phases_failed (PhaseFailed p err # es) = (p, err) # phases_failed es"
| "phases_failed (e # es) = phases_failed es"

definition all_phases :: "ManagerPhase list" where
  "all_phases = [ManagerPhaseInit, ManagerPhaseClusterBundle, ManagerPhaseNodeBundle,
     ManagerPhasePackaging, ManagerPhaseDone]"

text \<open>
  The loop's view of a state: what its own log lines say, and the status fields it sets.
  An action is \<open>quiet\<close> when it leaves this view alone.
\<close>

definition loop_view ::
  "SupportBundleManager \<Rightarrow>
     ManagerPhase list \<times> (ManagerPhase \<times> int) list \<times> (ManagerPhase \<times> string) list
       \<times> int \<times> ManagerPhase option \<times> string option" where
  "loop_view m =
     (phases_entered (trace m), phases_succeeded (trace m), phases_failed (trace m),
      Progress (status m), Phase (status m), ErrorMessage (status m))"

definition quiet :: "action \<Rightarrow> bool" where
  "quiet run = (\<forall>m. loop_view (snd (run m)) = loop_view m)"

text \<open>The progress the loop records when the given phases, the first at index \<open>i\<close>, succeed.\<close>

fun progress_steps :: "nat \<Rightarrow> nat \<Rightarrow> ManagerPhase list \<Rightarrow> (ManagerPhase \<times> int) list" where
  "progress_steps i n [] = []"
| "progress_steps i n (p # ps) = (p, 100 * (int i + 1) div int n) # progress_steps (Suc i) n ps"

text \<open>
  How many phases at the head of a table complete: the number of leading actions that
  return nil, each run as the loop runs it, on the state the turn before left.
\<close>

fun completed ::
  "(ManagerPhase \<times> action) list \<Rightarrow> nat \<Rightarrow> nat \<Rightarrow> SupportBundleManager \<Rightarrow> nat" where
  "completed [] i n m = 0"
| "completed ((name, run) # rest) i n m =
     (case run ((emit (RunningPhase name) m)
                  \<lparr>status := SetPhase name (status (emit (RunningPhase name) m))\<rparr>) of
        (Returned None, m3) \<Rightarrow>
          Suc (completed rest (i + 1) n
            (emit (PhaseSucceeded name (100 * (int i + 1) div int n))
               (m3\<lparr>status := SetProgress (100 * (int i + 1) div int n) (status m3)\<rparr>)))
      | (Returned (Some err), m3) \<Rightarrow> 0
      | (Blocked, m3) \<Rightarrow> 0
      | (Panicked, m3) \<Rightarrow> 0)"

text \<open>The message of the first check of \<open>check\<close> that a manager with a missing input fails.\<close>

definition first_missing :: "SupportBundleManager \<Rightarrow> string" where
  "first_missing m =
     (if (case strings_Split (CHR '','') (NamespaceList m) of
           [] \<Rightarrow> True | n # ns \<Rightarrow> length n = 0)
      then ''namespace is not specified''
      else if BundleName m = [] then ''support bundle name is not specified''
      else if ManagerPodIP m = [] then ''manager pod IP is not specified''
      else if ImageName m = [] then ''image name is not specified''
      else ''image pull policy is not specified'')"

text \<open>How often a trace shows \<open>completeNode\<close> removing the node from the expected set.\<close>

definition removals :: "string \<Rightarrow> event list \<Rightarrow> nat" where
  "removals node tr =
     length (filter (\<lambda>e. e = CompleteNode node) tr)"

section \<open>Example runs\<close>

text \<open>A manager as the command line creates it: the exported fields set, the rest zero.\<close>

definition new_manager :: SupportBundleManager where
  "new_manager =
     \<lparr>Namespaces = [], NamespaceList = ''harvester-system'', BundleName = ''bundle-1'',
      bundleFileName = [], OutputDir = ''/tmp/sbk'', WaitTimeout = 600000000000,
      ManagerPodIP = ''10.0.0.7'', Standalone = False, ImageName = ''support-bundle-kit:dev'',
      ImagePullPolicy = ''IfNotPresent'', KubeConfig = [], PodNamespace = [],
      NodeSelector = [], context' = None,
      status = \<lparr>Phase = None, Progress = 0, ErrorMessage = None, Filename = None,
        Filesize = None\<rparr>,
      ch = None, done' = False, expectedNodes = [], trace = []\<rparr>"

text \<open>A cluster of two nodes in which every call succeeds and both nodes report.\<close>

definition good_env :: env where
  "good_env =
     \<lparr>os_TempDir = ''/tmp'', os_MkdirAll = (\<lambda>p. None), rest_InClusterConfig = None,
      client_NewKubernetesClient = None, client_NewMetricsClient = None,
      client_NewDiscoveryClient = None, utils_PodNamespace = ''harvester-system'',
      state_GetState = (\<lambda>ns name. (''generating'', None)),
      SupportBundleStateGenerating = ''generating'',
      k8s_GetNamespace = (\<lambda>ns. (''8f2c'', None)), k8s_GetKubernetesVersion = None,
      state_GetSupportBundle = (\<lambda>ns name. None), utils_Now = ''2021-03-04T05:06:07Z'',
      os_Create = (\<lambda>p. None),
      k8s_GetNodesListByLabels = (\<lambda>sel. ([''node-a'', ''node-b''], None)),
      agents_Create = (\<lambda>img url. None), agents_Cleanup = None,
      handler_calls = [''node-a'', ''node-b''],
      os_Rename = (\<lambda>old new. None), exec_Run = (\<lambda>dir argv. None),
      os_Stat = (\<lambda>p. (4096, None)), context_cancelled = True,
      zip_valid = (\<lambda>bytes. take 4 bytes = ''PK'' @ [CHR 0x03, CHR 0x04]),
      node_bundle_path = (\<lambda>dir node. filepath_Join [dir, ''nodes'', node @ ''.zip''])\<rparr>"

text \<open>The same cluster when no node ever reports, and when the selector matches no node.\<close>

definition silent_env :: env where
  "silent_env = good_env\<lparr>handler_calls := []\<rparr>"

definition empty_env :: env where
  "empty_env = good_env\<lparr>k8s_GetNodesListByLabels := (\<lambda>sel. ([], None)), handler_calls := []\<rparr>"

text \<open>The manager in the middle of the NodeBundle phase, waiting for two nodes.\<close>

definition waiting_manager :: SupportBundleManager where
  "waiting_manager =
     new_manager\<lparr>ch := Some (), expectedNodes := [(''node-b'', []), (''node-a'', [])]\<rparr>"

text \<open>
  The states of the run of \<open>new_manager\<close> in \<open>empty_env\<close>, after each of the five
  iterations of the loop.
\<close>

definition after_init :: SupportBundleManager where
  "after_init =
     new_manager\<lparr>Namespaces := [''harvester-system''], PodNamespace := ''harvester-system'',
       context' := Some SignalContext,
       status := \<lparr>Phase = Some ManagerPhaseInit, Progress = 20, ErrorMessage = None,
         Filename = None, Filesize = None\<rparr>,
       trace := [RunningPhase ManagerPhaseInit, MkdirAll ''/tmp/sbk/bundle'',
         SetupSignalHandler, HttpServerRun, PhaseSucceeded ManagerPhaseInit 20]\<rparr>"

definition after_cluster_bundle :: SupportBundleManager where
  "after_cluster_bundle =
     after_init\<lparr>bundleFileName := ''supportbundle_8f2c_2021-03-04T05-06-07Z.zip'',
       status := \<lparr>Phase = Some ManagerPhaseClusterBundle, Progress = 40, ErrorMessage = None,
         Filename = None, Filesize = None\<rparr>,
       trace := trace after_init @
         [RunningPhase ManagerPhaseClusterBundle, GeneratingClusterBundle,
          CreateFile ''/tmp/sbk/bundle/bundleGenerationError.log'',
          DumpCluster ''/tmp/sbk/bundle'', PhaseSucceeded ManagerPhaseClusterBundle 40]\<rparr>"

definition after_node_bundle :: SupportBundleManager where
  "after_node_bundle =
     after_cluster_bundle\<lparr>ch := Some (),
       status := \<lparr>Phase = Some ManagerPhaseNodeBundle, Progress = 60, ErrorMessage = None,
         Filename = None, Filesize = None\<rparr>,
       trace := trace after_cluster_bundle @
         [RunningPhase ManagerPhaseNodeBundle, CollectError ''no nodes are found'',
          PhaseSucceeded ManagerPhaseNodeBundle 60]\<rparr>"

definition after_packaging :: SupportBundleManager where
  "after_packaging =
     after_node_bundle\<lparr>
       status := \<lparr>Phase = Some ManagerPhasePackaging, Progress = 80, ErrorMessage = None,
         Filename = Some ''supportbundle_8f2c_2021-03-04T05-06-07Z.zip'',
         Filesize = Some 4096\<rparr>,
       trace := trace after_node_bundle @
         [RunningPhase ManagerPhasePackaging,
          Rename ''/tmp/sbk/bundle'' ''/tmp/sbk/supportbundle_8f2c_2021-03-04T05-06-07Z'',
          Exec ''/tmp/sbk''
            [''zip'', ''-r'', ''/tmp/sbk/supportbundle_8f2c_2021-03-04T05-06-07Z.zip'',
             ''supportbundle_8f2c_2021-03-04T05-06-07Z''],
          PhaseSucceeded ManagerPhasePackaging 80]\<rparr>"

definition after_done :: SupportBundleManager where
  "after_done =
     after_packaging\<lparr>
       status := \<lparr>Phase = Some ManagerPhaseDone, Progress = 100, ErrorMessage = None,
         Filename = Some ''supportbundle_8f2c_2021-03-04T05-06-07Z.zip'',
         Filesize = Some 4096\<rparr>,
       trace := trace after_packaging @
         [RunningPhase ManagerPhaseDone,
          BundleReady ''/tmp/sbk/supportbundle_8f2c_2021-03-04T05-06-07Z.zip'',
          PhaseSucceeded ManagerPhaseDone 100]\<rparr>"

section \<open>Facts about the expected set and the trace\<close>

lemma delete_empty_iff: "AList.delete k al = [] \<longleftrightarrow> fst ` set al \<subseteq> {k}"
  by (induction al) (auto simp: AList.delete_eq)

lemma keys_delete: "fst ` set (AList.delete k al) = fst ` set al - {k}"
  by (induction al) (auto simp: AList.delete_eq)

lemma delete_absent: "map_of al k = None \<Longrightarrow> AList.delete k al = al"
  by (induction al) (auto simp: AList.delete_eq split: if_splits)

lemma empty_iff_keys: "map_of al k = None \<Longrightarrow> al = [] \<longleftrightarrow> fst ` set al \<subseteq> {k}"
  using delete_absent [of al k] delete_empty_iff [of k al] by simp

lemma keys_absent: "map_of al k = None \<Longrightarrow> fst ` set al - {k} = fst ` set al"
  using delete_absent [of al k] keys_delete [of k al] by simp

lemma sends_emit [simp]: "sends (emit e m) = sends m + (if e = ChanSend then 1 else 0)"
  by (simp add: sends_def emit_def is_send_def)

lemma sends_update [simp]:
  "sends (m\<lparr>expectedNodes := x\<rparr>) = sends m"
  "sends (m\<lparr>done' := b\<rparr>) = sends m"
  "sends (m\<lparr>ch := c\<rparr>) = sends m"
  "sends (m\<lparr>WaitTimeout := t\<rparr>) = sends m"
  by (simp_all add: sends_def)

lemma fields_emit [simp]:
  "Namespaces (emit e m) = Namespaces m"
  "NamespaceList (emit e m) = NamespaceList m"
  "BundleName (emit e m) = BundleName m"
  "bundleFileName (emit e m) = bundleFileName m"
  "OutputDir (emit e m) = OutputDir m"
  "WaitTimeout (emit e m) = WaitTimeout m"
  "ManagerPodIP (emit e m) = ManagerPodIP m"
  "Standalone (emit e m) = Standalone m"
  "ImageName (emit e m) = ImageName m"
  "ImagePullPolicy (emit e m) = ImagePullPolicy m"
  "KubeConfig (emit e m) = KubeConfig m"
  "PodNamespace (emit e m) = PodNamespace m"
  "NodeSelector (emit e m) = NodeSelector m"
  "context' (emit e m) = context' m"
  "status (emit e m) = status m"
  "ch (emit e m) = ch m"
  "done' (emit e m) = done' m"
  "expectedNodes (emit e m) = expectedNodes m"
  "trace (emit e m) = trace m @ [e]"
  by (simp_all add: emit_def)

lemma paths_emit [simp]:
  "getWorkingDir (emit e m) = getWorkingDir m"
  "getBundlefile (emit e m) = getBundlefile m"
  by (simp_all add: getWorkingDir_def getBundlefile_def)

subsection \<open>What the loop sees of an action\<close>

lemma phases_entered_append [simp]:
  "phases_entered (xs @ ys) = phases_entered xs @ phases_entered ys"
  by (induction xs rule: phases_entered.induct) simp_all

lemma phases_succeeded_append [simp]:
  "phases_succeeded (xs @ ys) = phases_succeeded xs @ phases_succeeded ys"
  by (induction xs rule: phases_succeeded.induct) simp_all

lemma phases_failed_append [simp]:
  "phases_failed (xs @ ys) = phases_failed xs @ phases_failed ys"
  by (induction xs rule: phases_failed.induct) simp_all

lemma loop_view_emit:
  "phases_entered [e] = [] \<Longrightarrow> phases_succeeded [e] = [] \<Longrightarrow> phases_failed [e] = []
     \<Longrightarrow> loop_view (emit e m) = loop_view m"
  by (simp add: loop_view_def)

lemma loop_view_update [simp]:
  "loop_view (m\<lparr>Namespaces := ns\<rparr>) = loop_view m"
  "loop_view (m\<lparr>OutputDir := d\<rparr>) = loop_view m"
  "loop_view (m\<lparr>context' := c\<rparr>) = loop_view m"
  "loop_view (m\<lparr>PodNamespace := p\<rparr>) = loop_view m"
  "loop_view (m\<lparr>bundleFileName := f\<rparr>) = loop_view m"
  "loop_view (m\<lparr>ch := k\<rparr>) = loop_view m"
  "loop_view (m\<lparr>done' := b\<rparr>) = loop_view m"
  "loop_view (m\<lparr>expectedNodes := al\<rparr>) = loop_view m"
  "loop_view (m\<lparr>status := SetFileinfo name sz (status m)\<rparr>) = loop_view m"
  by (simp_all add: loop_view_def SetFileinfo_def)

subsection \<open>One call of \<open>completeNode\<close>\<close>

lemma completeNode_done:
  assumes "done' m"
  shows "\<exists>m'. completeNode r m node = (Returned (), m') \<and> done' m' \<and> sends m' = sends m
     \<and> ch m' = ch m \<and> fst ` set (expectedNodes m') = fst ` set (expectedNodes m) - {node}"
proof (cases "map_of (expectedNodes m) node")
  case None
  with assms show ?thesis by (simp add: completeNode_def Let_def keys_absent)
next
  case (Some v)
  with assms keys_delete [of node "expectedNodes m"] show ?thesis
    by (auto simp: completeNode_def Let_def)
qed

lemma completeNode_last:
  assumes "\<not> done' m" "ch m \<noteq> None" "fst ` set (expectedNodes m) \<subseteq> {node}"
  shows "\<exists>m'. completeNode True m node = (Returned (), m') \<and> done' m' \<and> sends m' = sends m + 1
     \<and> ch m' = ch m \<and> expectedNodes m' = []"
proof (cases "map_of (expectedNodes m) node")
  case None
  with assms empty_iff_keys [OF None] show ?thesis
    by (simp add: completeNode_def Let_def)
next
  case (Some v)
  with assms delete_empty_iff [of node "expectedNodes m"] show ?thesis
    by (simp add: completeNode_def Let_def)
qed

lemma completeNode_more:
  assumes "\<not> fst ` set (expectedNodes m) \<subseteq> {node}"
  shows "\<exists>m'. completeNode r m node = (Returned (), m') \<and> done' m' = done' m \<and> sends m' = sends m
     \<and> ch m' = ch m \<and> fst ` set (expectedNodes m') = fst ` set (expectedNodes m) - {node}"
proof (cases "map_of (expectedNodes m) node")
  case None
  with assms empty_iff_keys [OF None] show ?thesis
    by (simp add: completeNode_def Let_def keys_absent)
next
  case (Some v)
  with assms delete_empty_iff [of node "expectedNodes m"] show ?thesis
    by (simp add: completeNode_def Let_def keys_delete)
qed

subsection \<open>Sequences of calls\<close>

lemma completeNodes_after_signal:
  "done' m \<Longrightarrow> \<exists>m'. completeNodes r m ns = (Returned (), m') \<and> done' m' \<and> sends m' = sends m"
proof (induction ns arbitrary: m r)
  case Nil
  then show ?case by simp
next
  case (Cons n ns)
  from completeNode_done [OF Cons.prems, of r n] obtain m1 where
    s: "completeNode r m n = (Returned (), m1)" "done' m1" "sends m1 = sends m" by blast
  from Cons.IH [OF s(2)] s show ?case by auto
qed

lemma completeNodes_count:
  assumes "ch m \<noteq> None" "\<not> done' m"
  shows "\<exists>m'. completeNodes True m ns = (Returned (), m') \<and>
     sends m' = sends m + (if ns \<noteq> [] \<and> fst ` set (expectedNodes m) \<subseteq> set ns then 1 else 0) \<and>
     (done' m' \<longleftrightarrow> ns \<noteq> [] \<and> fst ` set (expectedNodes m) \<subseteq> set ns)"
  using assms
proof (induction ns arbitrary: m)
  case Nil
  then show ?case by simp
next
  case (Cons n ns)
  show ?case
  proof (cases "fst ` set (expectedNodes m) \<subseteq> {n}")
    case True
    from completeNode_last [OF Cons.prems(2) Cons.prems(1) True] obtain m1 where
      s: "completeNode True m n = (Returned (), m1)" "done' m1" "sends m1 = sends m + 1" by blast
    from completeNodes_after_signal [OF s(2), of False ns] obtain m2 where
      t: "completeNodes False m1 ns = (Returned (), m2)" "done' m2" "sends m2 = sends m1" by blast
    from True have "fst ` set (expectedNodes m) \<subseteq> set (n # ns)" by auto
    with s t show ?thesis by simp
  next
    case False
    from completeNode_more [OF False, of True] obtain m1 where
      s: "completeNode True m n = (Returned (), m1)" "done' m1 = done' m" "sends m1 = sends m"
         "ch m1 = ch m" "fst ` set (expectedNodes m1) = fst ` set (expectedNodes m) - {n}" by blast
    from Cons.prems s have p: "ch m1 \<noteq> None" "\<not> done' m1" by simp_all
    from Cons.IH [OF p] obtain m2 where
      t: "completeNodes True m1 ns = (Returned (), m2)"
         "sends m2 = sends m1 + (if ns \<noteq> [] \<and> fst ` set (expectedNodes m1) \<subseteq> set ns then 1 else 0)"
         "done' m2 \<longleftrightarrow> ns \<noteq> [] \<and> fst ` set (expectedNodes m1) \<subseteq> set ns" by blast
    have e: "(ns \<noteq> [] \<and> fst ` set (expectedNodes m1) \<subseteq> set ns)
        \<longleftrightarrow> fst ` set (expectedNodes m) \<subseteq> set (n # ns)"
      using False s(5) by auto
    from s t e show ?thesis by simp
  qed
qed

lemma receive_ch_blocks:
  "\<not> fst ` set (expectedNodes m) \<subseteq> set ns \<Longrightarrow> fst (receive_ch m ns) = Blocked"
proof (induction ns arbitrary: m)
  case Nil
  then show ?case by simp
next
  case (Cons n ns)
  from Cons.prems have f: "\<not> fst ` set (expectedNodes m) \<subseteq> {n}" by auto
  from completeNode_more [OF f, of True] obtain m1 where
    s: "completeNode True m n = (Returned (), m1)" "sends m1 = sends m"
       "fst ` set (expectedNodes m1) = fst ` set (expectedNodes m) - {n}" by blast
  from Cons.prems s(3) have "\<not> fst ` set (expectedNodes m1) \<subseteq> set ns" by auto
  from Cons.IH [OF this] s show ?case by simp
qed

subsection \<open>Removals\<close>

lemma removals_append [simp]: "removals node (xs @ ys) = removals node xs + removals node ys"
  by (simp add: removals_def)

lemma completeNode_expected:
  "expectedNodes (snd (completeNode r m n)) = AList.delete n (expectedNodes m)"
proof (cases "map_of (expectedNodes m) n")
  case None
  then show ?thesis
    by (simp add: completeNode_def Let_def delete_absent)
next
  case (Some v)
  then show ?thesis
    by (simp add: completeNode_def Let_def)
qed

lemma completeNode_removals:
  "removals node (trace (snd (completeNode r m n))) =
     removals node (trace m) + (if n = node \<and> map_of (expectedNodes m) node \<noteq> None then 1 else 0)"
proof (cases "map_of (expectedNodes m) n")
  case None
  then show ?thesis
    by (auto simp: completeNode_def Let_def removals_def)
next
  case (Some v)
  then show ?thesis
    by (auto simp: completeNode_def Let_def removals_def)
qed

lemma completeNode_step:
  "map_of (expectedNodes (snd (completeNode r m n))) = (map_of (expectedNodes m))(n := None) \<and>
   removals node (trace (snd (completeNode r m n))) =
     removals node (trace m) + (if n = node \<and> map_of (expectedNodes m) node \<noteq> None then 1 else 0)"
  by (simp only: completeNode_expected completeNode_removals AList.delete_conv' simp_thms)

lemma completeNodes_removals:
  "removals node (trace (snd (completeNodes r m ns))) \<le>
     removals node (trace m) + (if map_of (expectedNodes m) node \<noteq> None then 1 else 0)"
proof (induction ns arbitrary: m r)
  case Nil
  then show ?case by simp
next
  case (Cons n ns)
  obtain out m1 where c: "completeNode r m n = (out, m1)" by (cases "completeNode r m n")
  from completeNode_step [of r m n node] c have
    s: "map_of (expectedNodes m1) = (map_of (expectedNodes m))(n := None)"
       "removals node (trace m1) =
          removals node (trace m) + (if n = node \<and> map_of (expectedNodes m) node \<noteq> None then 1 else 0)"
    by simp_all
  show ?case
  proof (cases out)
    case (Returned u)
    from Cons.IH [of "r \<and> sends m1 = sends m" m1] s c Returned show ?thesis
      by (auto split: if_splits)
  next
    case Blocked
    with c s show ?thesis by simp
  next
    case Panicked
    with c s show ?thesis by simp
  qed
qed

lemma keys_fold_update:
  "fst ` set (fold (\<lambda>name. AList.update name v) items al) = set items \<union> fst ` set al"
  by (induction items arbitrary: al) (auto simp: AList.dom_update)

subsection \<open>Every phase is quiet\<close>

lemma quiet_phaseInit: "quiet (returns (phaseInit env))"
  by (simp add: quiet_def returns_def phaseInit_def check_def initClients_def
      Let_def errors_New_def loop_view_emit split: option.split prod.split list.split)

lemma quiet_phaseDone: "quiet (returns phaseDone)"
  by (simp add: quiet_def returns_def phaseDone_def loop_view_emit)

lemma quiet_phaseCollectClusterBundle: "quiet (returns (phaseCollectClusterBundle env))"
  by (simp add: quiet_def returns_def phaseCollectClusterBundle_def GenerateClusterBundle_def
      Let_def loop_view_def errors_Wrap_def split: option.split prod.split)

lemma quiet_phasePackaging: "quiet (returns (phasePackaging env))"
  by (simp add: quiet_def returns_def phasePackaging_def compressBundle_def getBundlefilesize_def
      Let_def loop_view_def SetFileinfo_def errors_Wrap_def split: option.split prod.split)

lemma loop_view_completeNode: "loop_view (snd (completeNode r m node)) = loop_view m"
  by (simp add: completeNode_def Let_def loop_view_emit)

lemma loop_view_receive_ch: "loop_view (snd (receive_ch m ns)) = loop_view m"
proof (induction ns arbitrary: m)
  case Nil
  then show ?case by simp
next
  case (Cons n ns)
  obtain out m1 where c: "completeNode True m n = (out, m1)" by (cases "completeNode True m n")
  with loop_view_completeNode [of True m n] have v: "loop_view m1 = loop_view m" by simp
  show ?case
  proof (cases out)
    case (Returned u)
    with c v Cons.IH [of m1] show ?thesis by simp
  next
    case Blocked
    with c v show ?thesis by simp
  next
    case Panicked
    with c v show ?thesis by simp
  qed
qed

lemma loop_view_collectNodeBundles: "loop_view (snd (collectNodeBundles env m)) = loop_view m"
proof -
  let ?m0 = "m\<lparr>ch := Some ()\<rparr>"
  obtain items err where n: "k8s_GetNodesListByLabels env (NodeSelector m) = (items, err)"
    by (cases "k8s_GetNodesListByLabels env (NodeSelector m)")
  show ?thesis
  proof (cases "err = None \<and> items \<noteq> []")
    case False
    with n show ?thesis
      by (cases err) (auto simp: collectNodeBundles_def refreshNodes_def errors_New_def)
  next
    case True
    let ?m1 = "?m0\<lparr>expectedNodes := fold (\<lambda>name. AList.update name []) items []\<rparr>"
    let ?url = "''http://'' @ ManagerPodIP m @ '':8080''"
    let ?m3 = "emit (AgentsCreate (ImageName m) ?url) (emit (ExpectedBundles (expectedNodes ?m1)) ?m1)"
    have v3: "loop_view ?m3 = loop_view m" by (simp add: loop_view_emit)
    obtain out m4 where r: "receive_ch ?m3 (handler_calls env) = (out, m4)"
      by (cases "receive_ch ?m3 (handler_calls env)")
    with loop_view_receive_ch [of ?m3 "handler_calls env"] v3 have v4: "loop_view m4 = loop_view m"
      by simp
    from True n r v3 v4 show ?thesis
      by (cases out; cases "agents_Create env (ImageName m) ?url"; cases "agents_Cleanup env")
         (simp_all add: collectNodeBundles_def refreshNodes_def Let_def loop_view_emit errors_Wrap_def)
  qed
qed

lemma quiet_phaseCollectNodeBundles: "quiet (phaseCollectNodeBundles env)"
proof -
  have "loop_view (snd (phaseCollectNodeBundles env m)) = loop_view m" for m
  proof -
    obtain out m1 where c: "collectNodeBundles env m = (out, m1)"
      by (cases "collectNodeBundles env m")
    with loop_view_collectNodeBundles [of env m] have "loop_view m1 = loop_view m" by simp
    with c show ?thesis
      by (cases out) (auto simp: phaseCollectNodeBundles_def loop_view_emit split: option.split)
  qed
  then show ?thesis by (simp add: quiet_def)
qed

subsection \<open>The loop over quiet phases\<close>

lemma run_phases_view:
  assumes "\<forall>p \<in> set ps. quiet (snd p)"
  shows "\<exists>k \<le> length ps.
     phases_entered (trace (snd (run_phases ps i n m))) =
       phases_entered (trace m) @ take (Suc k) (map fst ps) \<and>
     phases_succeeded (trace (snd (run_phases ps i n m))) =
       phases_succeeded (trace m) @ progress_steps i n (take k (map fst ps)) \<and>
     Progress (status (snd (run_phases ps i n m))) =
       last (Progress (status m) # map snd (progress_steps i n (take k (map fst ps)))) \<and>
     (k = length ps \<and> fst (run_phases ps i n m) = Returned () \<and>
        phases_failed (trace (snd (run_phases ps i n m))) = phases_failed (trace m) \<and>
        ErrorMessage (status (snd (run_phases ps i n m))) = ErrorMessage (status m)
      \<or> k < length ps \<and> fst (run_phases ps i n m) = Returned () \<and>
        (\<exists>e. phases_failed (trace (snd (run_phases ps i n m))) =
               phases_failed (trace m) @ [(fst (ps ! k), e)] \<and>
             ErrorMessage (status (snd (run_phases ps i n m))) = Some e) \<and>
        Phase (status (snd (run_phases ps i n m))) = Some (fst (ps ! k))
      \<or> k < length ps \<and> fst (run_phases ps i n m) \<noteq> Returned () \<and>
        phases_failed (trace (snd (run_phases ps i n m))) = phases_failed (trace m) \<and>
        ErrorMessage (status (snd (run_phases ps i n m))) = ErrorMessage (status m) \<and>
        Phase (status (snd (run_phases ps i n m))) = Some (fst (ps ! k)))"
  using assms
proof (induction ps arbitrary: i m)
  case Nil
  then show ?case by simp
next
  case (Cons p ps)
  obtain name run where p: "p = (name, run)" by (cases p)
  define m2 where
    "m2 = (emit (RunningPhase name) m)\<lparr>status := SetPhase name (status (emit (RunningPhase name) m))\<rparr>"
  have v2: "phases_entered (trace m2) = phases_entered (trace m) @ [name]"
    "phases_succeeded (trace m2) = phases_succeeded (trace m)"
    "phases_failed (trace m2) = phases_failed (trace m)"
    "Progress (status m2) = Progress (status m)"
    "ErrorMessage (status m2) = ErrorMessage (status m)"
    "Phase (status m2) = Some name"
    by (simp_all add: m2_def SetPhase_def)
  obtain out m3 where r: "run m2 = (out, m3)" by (cases "run m2")
  from Cons.prems p have "quiet run" by simp
  then have "loop_view (snd (run m2)) = loop_view m2" unfolding quiet_def by blast
  then have "loop_view m3 = loop_view m2" using r by simp
  with v2 have v3: "phases_entered (trace m3) = phases_entered (trace m) @ [name]"
    "phases_succeeded (trace m3) = phases_succeeded (trace m)"
    "phases_failed (trace m3) = phases_failed (trace m)"
    "Progress (status m3) = Progress (status m)"
    "ErrorMessage (status m3) = ErrorMessage (status m)"
    "Phase (status m3) = Some name"
    by (simp_all add: loop_view_def)
  show ?case
  proof (cases out)
    case Blocked
    with r have "run_phases (p # ps) i n m = (Blocked, m3)"
      by (simp add: p m2_def Let_def)
    with v3 show ?thesis by (intro exI [of _ 0]) (simp add: p)
  next
    case Panicked
    with r have "run_phases (p # ps) i n m = (Panicked, m3)"
      by (simp add: p m2_def Let_def)
    with v3 show ?thesis by (intro exI [of _ 0]) (simp add: p)
  next
    case (Returned e)
    show ?thesis
    proof (cases e)
      case (Some err)
      with r Returned have "run_phases (p # ps) i n m =
          (Returned (), emit (PhaseFailed name err) (m3\<lparr>status := SetError err (status m3)\<rparr>))"
        by (simp add: p m2_def Let_def)
      with v3 show ?thesis by (intro exI [of _ 0]) (simp add: p SetError_def)
    next
      case None
      define prog where "prog = 100 * (int i + 1) div int n"
      define m5 where
        "m5 = emit (PhaseSucceeded name prog) (m3\<lparr>status := SetProgress prog (status m3)\<rparr>)"
      from r Returned None have step: "run_phases (p # ps) i n m = run_phases ps (Suc i) n m5"
        by (simp add: p m2_def m5_def prog_def Let_def)
      have v5: "phases_entered (trace m5) = phases_entered (trace m) @ [name]"
        "phases_succeeded (trace m5) = phases_succeeded (trace m) @ [(name, prog)]"
        "phases_failed (trace m5) = phases_failed (trace m)"
        "Progress (status m5) = prog"
        "ErrorMessage (status m5) = ErrorMessage (status m)"
        using v3 by (simp_all add: m5_def SetProgress_def)
      from Cons.prems have "\<forall>p \<in> set ps. quiet (snd p)" by simp
      from Cons.IH [OF this, of "Suc i" m5] obtain k where k: "k \<le> length ps"
        "phases_entered (trace (snd (run_phases ps (Suc i) n m5))) =
           phases_entered (trace m5) @ take (Suc k) (map fst ps)"
        "phases_succeeded (trace (snd (run_phases ps (Suc i) n m5))) =
           phases_succeeded (trace m5) @ progress_steps (Suc i) n (take k (map fst ps))"
        "Progress (status (snd (run_phases ps (Suc i) n m5))) =
           last (Progress (status m5) # map snd (progress_steps (Suc i) n (take k (map fst ps))))"
        "k = length ps \<and> fst (run_phases ps (Suc i) n m5) = Returned () \<and>
            phases_failed (trace (snd (run_phases ps (Suc i) n m5))) = phases_failed (trace m5) \<and>
            ErrorMessage (status (snd (run_phases ps (Suc i) n m5))) = ErrorMessage (status m5)
          \<or> k < length ps \<and> fst (run_phases ps (Suc i) n m5) = Returned () \<and>
            (\<exists>e. phases_failed (trace (snd (run_phases ps (Suc i) n m5))) =
                   phases_failed (trace m5) @ [(fst (ps ! k), e)] \<and>
                 ErrorMessage (status (snd (run_phases ps (Suc i) n m5))) = Some e) \<and>
            Phase (status (snd (run_phases ps (Suc i) n m5))) = Some (fst (ps ! k))
          \<or> k < length ps \<and> fst (run_phases ps (Suc i) n m5) \<noteq> Returned () \<and>
            phases_failed (trace (snd (run_phases ps (Suc i) n m5))) = phases_failed (trace m5) \<and>
            ErrorMessage (status (snd (run_phases ps (Suc i) n m5))) = ErrorMessage (status m5) \<and>
            Phase (status (snd (run_phases ps (Suc i) n m5))) = Some (fst (ps ! k))"
        by blast
      have e1: "phases_entered (trace (snd (run_phases (p # ps) i n m))) =
          phases_entered (trace m) @ take (Suc (Suc k)) (map fst (p # ps))"
        unfolding step using k(2) v5(1) by (simp add: p)
      have e2: "phases_succeeded (trace (snd (run_phases (p # ps) i n m))) =
          phases_succeeded (trace m) @ progress_steps i n (take (Suc k) (map fst (p # ps)))"
        unfolding step using k(3) v5(2) by (simp add: p prog_def)
      have e3: "Progress (status (snd (run_phases (p # ps) i n m))) =
          last (Progress (status m) # map snd (progress_steps i n (take (Suc k) (map fst (p # ps)))))"
        unfolding step using k(4) v5(4) by (simp add: p prog_def)
      have e4: "Suc k \<le> length (p # ps)" using k(1) by simp
      have e5: "(p # ps) ! Suc k = ps ! k" by simp
      have e6: "Suc k = length (p # ps) \<longleftrightarrow> k = length ps"
        "Suc k < length (p # ps) \<longleftrightarrow> k < length ps" by simp_all
      show ?thesis
        apply (intro exI [of _ "Suc k"] conjI e1 e2 e3 e4)
        unfolding e5 e6 step
        using k(5) v5(3,5) by simp

    qed
  qed
qed

subsection \<open>The five phases of \<open>Run\<close>\<close>

lemma map_fst_progress_steps [simp]: "map fst (progress_steps i n ps) = ps"
  by (induction ps arbitrary: i) simp_all

lemma phases_quiet: "\<forall>p \<in> set (phases env). quiet (snd p)"
  by (simp add: phases_def quiet_phaseInit quiet_phaseCollectClusterBundle
      quiet_phaseCollectNodeBundles quiet_phasePackaging quiet_phaseDone)

lemma phases_names [simp]: "map fst (phases env) = all_phases" "length (phases env) = 5"
  by (simp_all add: phases_def all_phases_def)

lemma snd_Run: "snd (Run env m) = snd (run_phases (phases env) 0 5 m)"
  by (simp add: Run_def split: prod.split outcome.split option.split)

lemma Run_view:
  "\<exists>k \<le> 5.
     phases_entered (trace (snd (Run env m))) = phases_entered (trace m) @ take (Suc k) all_phases \<and>
     phases_succeeded (trace (snd (Run env m))) =
       phases_succeeded (trace m) @ progress_steps 0 5 (take k all_phases) \<and>
     Progress (status (snd (Run env m))) =
       last (Progress (status m) # map snd (progress_steps 0 5 (take k all_phases))) \<and>
     (phases_failed (trace (snd (Run env m))) = phases_failed (trace m) \<and>
        ErrorMessage (status (snd (Run env m))) = ErrorMessage (status m)
      \<or> k < 5 \<and>
        (\<exists>e. phases_failed (trace (snd (Run env m))) = phases_failed (trace m) @ [(all_phases ! k, e)] \<and>
             ErrorMessage (status (snd (Run env m))) = Some e) \<and>
        Phase (status (snd (Run env m))) = Some (all_phases ! k))"
proof -
  from run_phases_view [OF phases_quiet, of env 0 5 m] obtain k where k: "k \<le> 5"
    "phases_entered (trace (snd (run_phases (phases env) 0 5 m))) =
       phases_entered (trace m) @ take (Suc k) all_phases"
    "phases_succeeded (trace (snd (run_phases (phases env) 0 5 m))) =
       phases_succeeded (trace m) @ progress_steps 0 5 (take k all_phases)"
    "Progress (status (snd (run_phases (phases env) 0 5 m))) =
       last (Progress (status m) # map snd (progress_steps 0 5 (take k all_phases)))"
    "k = 5 \<and> fst (run_phases (phases env) 0 5 m) = Returned () \<and>
        phases_failed (trace (snd (run_phases (phases env) 0 5 m))) = phases_failed (trace m) \<and>
        ErrorMessage (status (snd (run_phases (phases env) 0 5 m))) = ErrorMessage (status m)
      \<or> k < 5 \<and> fst (run_phases (phases env) 0 5 m) = Returned () \<and>
        (\<exists>e. phases_failed (trace (snd (run_phases (phases env) 0 5 m))) =
               phases_failed (trace m) @ [(fst (phases env ! k), e)] \<and>
             ErrorMessage (status (snd (run_phases (phases env) 0 5 m))) = Some e) \<and>
        Phase (status (snd (run_phases (phases env) 0 5 m))) = Some (fst (phases env ! k))
      \<or> k < 5 \<and> fst (run_phases (phases env) 0 5 m) \<noteq> Returned () \<and>
        phases_failed (trace (snd (run_phases (phases env) 0 5 m))) = phases_failed (trace m) \<and>
        ErrorMessage (status (snd (run_phases (phases env) 0 5 m))) = ErrorMessage (status m) \<and>
        Phase (status (snd (run_phases (phases env) 0 5 m))) = Some (fst (phases env ! k))"
    by auto
  have n: "fst (phases env ! k) = all_phases ! k" if "k < 5"
    using that nth_map [of k "phases env" fst] by simp
  show ?thesis
    apply (intro exI [of _ k] conjI)
    using k n by (auto simp: snd_Run)
qed

text \<open>
  The number of phases that a run of the loop logs as succeeded is the number of
  leading actions that returned nil.
\<close>

lemma completed_le: "completed ps i n m \<le> length ps"
proof (induction ps arbitrary: i m)
  case Nil
  then show ?case by simp
next
  case (Cons p ps)
  obtain name run where p: "p = (name, run)" by (cases p)
  show ?case
    using Cons.IH
    by (simp add: p split: prod.split outcome.split option.split)
qed

lemma length_progress_steps [simp]: "length (progress_steps i n ps) = length ps"
  by (induction ps arbitrary: i) simp_all

lemma run_phases_succeeded:
  assumes "\<forall>p \<in> set ps. quiet (snd p)"
  shows "phases_succeeded (trace (snd (run_phases ps i n m))) =
     phases_succeeded (trace m) @ progress_steps i n (take (completed ps i n m) (map fst ps))"
  using assms
proof (induction ps arbitrary: i m)
  case Nil
  then show ?case by simp
next
  case (Cons p ps)
  obtain name run where p: "p = (name, run)" by (cases p)
  define m2 where
    "m2 = (emit (RunningPhase name) m)\<lparr>status := SetPhase name (status (emit (RunningPhase name) m))\<rparr>"
  obtain out m3 where r: "run m2 = (out, m3)" by (cases "run m2")
  from Cons.prems p have "quiet run" by simp
  then have "loop_view (snd (run m2)) = loop_view m2" unfolding quiet_def by blast
  with r have v3: "phases_succeeded (trace m3) = phases_succeeded (trace m)"
    by (simp add: loop_view_def m2_def)
  show ?case
  proof (cases out)
    case Blocked
    with r v3 show ?thesis by (simp add: p m2_def Let_def)
  next
    case Panicked
    with r v3 show ?thesis by (simp add: p m2_def Let_def)
  next
    case (Returned e)
    show ?thesis
    proof (cases e)
      case (Some err)
      with r Returned v3 show ?thesis by (simp add: p m2_def Let_def)
    next
      case None
      define m5 where "m5 = emit (PhaseSucceeded name (100 * (int i + 1) div int n))
        (m3\<lparr>status := SetProgress (100 * (int i + 1) div int n) (status m3)\<rparr>)"
      from r Returned None have step: "run_phases (p # ps) i n m = run_phases ps (Suc i) n m5"
        "completed (p # ps) i n m = Suc (completed ps (Suc i) n m5)"
        by (simp_all add: p m2_def m5_def Let_def)
      from Cons.prems have "\<forall>p \<in> set ps. quiet (snd p)" by simp
      from Cons.IH [OF this, of "Suc i" m5] v3 show ?thesis
        unfolding step by (simp add: p m5_def)
    qed
  qed
qed

lemma progress_steps_take_inj:
  assumes "progress_steps i n (take k ps) = progress_steps i n (take j ps)"
    and "k \<le> length ps" "j \<le> length ps"
  shows "k = j"
proof -
  from assms(1) have "length (progress_steps i n (take k ps)) = length (progress_steps i n (take j ps))"
    by simp
  with assms(2,3) show ?thesis by simp
qed

lemma Run_completed:
  assumes "k \<le> 5"
    and "phases_succeeded (trace (snd (Run env m))) =
       phases_succeeded (trace m) @ progress_steps 0 5 (take k all_phases)"
  shows "k = completed (phases env) 0 5 m"
proof -
  from run_phases_succeeded [OF phases_quiet, of env 0 5 m] assms(2) have
    "progress_steps 0 5 (take k all_phases) =
       progress_steps 0 5 (take (completed (phases env) 0 5 m) all_phases)"
    by (simp add: snd_Run)
  moreover have "k \<le> length all_phases" using assms(1) by (simp add: all_phases_def)
  moreover have "completed (phases env) 0 5 m \<le> length all_phases"
    using completed_le [of "phases env" 0 5 m] by (simp add: all_phases_def)
  ultimately show ?thesis by (rule progress_steps_take_inj)
qed

subsection \<open>A missing input\<close>

lemma phaseInit_config_error:
  assumes "NamespaceList m = [] \<or> BundleName m = [] \<or> ManagerPodIP m = [] \<or> ImageName m = []
     \<or> ImagePullPolicy m = []"
  shows "phaseInit env m =
     (Some (first_missing m), m\<lparr>Namespaces := strings_Split (CHR '','') (NamespaceList m)\<rparr>)"
proof -
  let ?none = "case strings_Split (CHR '','') (NamespaceList m) of
      [] \<Rightarrow> True | n # ns \<Rightarrow> length n = 0"
  have first: "?none" if "NamespaceList m = []" using that by simp
  consider (namespace) "?none"
    | (name) "\<not> ?none" "BundleName m = []"
    | (ip) "\<not> ?none" "BundleName m \<noteq> []" "ManagerPodIP m = []"
    | (img) "\<not> ?none" "BundleName m \<noteq> []" "ManagerPodIP m \<noteq> []" "ImageName m = []"
    | (policy) "\<not> ?none" "BundleName m \<noteq> []" "ManagerPodIP m \<noteq> []" "ImageName m \<noteq> []"
        "ImagePullPolicy m = []"
    using assms first by blast
  then show ?thesis
    by cases (simp_all add: phaseInit_def check_def errors_New_def first_missing_def Let_def)
qed

lemma Run_config_error:
  assumes "phaseInit env (emit (RunningPhase ManagerPhaseInit) m
             \<lparr>status := SetPhase ManagerPhaseInit (status m)\<rparr>) = (Some e, m3)"
  shows "run_phases (phases env) 0 5 m =
     (Returned (), emit (PhaseFailed ManagerPhaseInit e) (m3\<lparr>status := SetError e (status m3)\<rparr>))"
  using assms by (simp add: phases_def returns_def Let_def)

lemma first_missing_pre [simp]:
  "first_missing (emit e m\<lparr>status := s\<rparr>) = first_missing m"
  by (simp add: first_missing_def)

subsection \<open>One turn of the loop\<close>

lemma run_phases_succeeds:
  assumes "run ((emit (RunningPhase name) m)\<lparr>status := SetPhase name (status m)\<rparr>)
     = (Returned None, m3)"
  shows "run_phases ((name, run) # rest) i n m =
     run_phases rest (i + 1) n
       (emit (PhaseSucceeded name (100 * (int i + 1) div int n))
          (m3\<lparr>status := SetProgress (100 * (int i + 1) div int n) (status m3)\<rparr>))"
  using assms by (simp add: Let_def)

lemma run_phases_fails:
  assumes "run ((emit (RunningPhase name) m)\<lparr>status := SetPhase name (status m)\<rparr>)
     = (Returned (Some err), m3)"
  shows "run_phases ((name, run) # rest) i n m =
     (Returned (), emit (PhaseFailed name err) (m3\<lparr>status := SetError err (status m3)\<rparr>))"
  using assms by (simp add: Let_def)

lemma run_phases_stuck:
  "run ((emit (RunningPhase name) m)\<lparr>status := SetPhase name (status m)\<rparr>) = (Blocked, m3)
     \<Longrightarrow> run_phases ((name, run) # rest) i n m = (Blocked, m3)"
  "run ((emit (RunningPhase name) m)\<lparr>status := SetPhase name (status m)\<rparr>) = (Panicked, m3)
     \<Longrightarrow> run_phases ((name, run) # rest) i n m = (Panicked, m3)"
  by (simp_all add: Let_def)

lemma Run_table:
  "snd (Run env m) =
     snd (run_phases
       [(ManagerPhaseInit, returns (phaseInit env)),
        (ManagerPhaseClusterBundle, returns (phaseCollectClusterBundle env)),
        (ManagerPhaseNodeBundle, phaseCollectNodeBundles env),
        (ManagerPhasePackaging, returns (phasePackaging env)),
        (ManagerPhaseDone, returns phaseDone)] 0 5 m)"
  using snd_Run [of env m] by (simp add: phases_def)

subsection \<open>The run in which the selector matches no node\<close>

lemma run_phases_split:
  assumes "run_phases [(name, run)] i n m = (Returned (), m')"
    and "phases_failed (trace m') = phases_failed (trace m)"
    and "quiet run"
  shows "run_phases ((name, run) # rest) i n m = run_phases rest (Suc i) n m'"
proof -
  let ?m2 = "(emit (RunningPhase name) m)\<lparr>status := SetPhase name (status (emit (RunningPhase name) m))\<rparr>"
  obtain out m3 where r: "run ?m2 = (out, m3)" by (cases "run ?m2")
  from assms(3) have "loop_view (snd (run ?m2)) = loop_view ?m2" unfolding quiet_def by blast
  with r have v: "phases_failed (trace m3) = phases_failed (trace m)"
    by (simp add: loop_view_def)
  show ?thesis
  proof (cases out)
    case Blocked
    with r assms(1) show ?thesis by (simp add: Let_def)
  next
    case Panicked
    with r assms(1) show ?thesis by (simp add: Let_def)
  next
    case (Returned e)
    show ?thesis
    proof (cases e)
      case None
      with r Returned assms(1) show ?thesis by (simp add: Let_def)
    next
      case (Some err)
      with r Returned assms(1) have
        "m' = emit (PhaseFailed name err) (m3\<lparr>status := SetError err (status m3)\<rparr>)"
        by (simp add: Let_def)
      with v assms(2) show ?thesis by simp
    qed
  qed
qed

lemmas eval_defs = returns_def phaseInit_def check_def initClients_def
  phaseCollectClusterBundle_def GenerateClusterBundle_def phaseCollectNodeBundles_def
  collectNodeBundles_def refreshNodes_def phasePackaging_def compressBundle_def
  phaseDone_def getWorkingDir_def getBundlefile_def getBundlefilesize_def
  errors_New_def errors_Wrap_def SetPhase_def SetError_def SetProgress_def SetFileinfo_def
  emit_def filepath_Join_def filepath_Clean_def clean_step_def filepath_Ext_def
  strings_TrimSuffix_def strings_HasSuffix_def strings_Replace_colon_def Let_def
  empty_env_def good_env_def new_manager_def

lemma step_init:
  "run_phases [(ManagerPhaseInit, returns (phaseInit empty_env))] 0 5 new_manager =
     (Returned (), after_init)"
  by (simp add: eval_defs after_init_def cong: let_weak_cong prod.case_cong_weak)

lemma step_cluster_bundle:
  "run_phases [(ManagerPhaseClusterBundle, returns (phaseCollectClusterBundle empty_env))] 1 5
     after_init = (Returned (), after_cluster_bundle)"
  by (simp add: eval_defs after_init_def after_cluster_bundle_def
      cong: let_weak_cong prod.case_cong_weak)

lemma step_node_bundle:
  "run_phases [(ManagerPhaseNodeBundle, phaseCollectNodeBundles empty_env)] 2 5
     after_cluster_bundle = (Returned (), after_node_bundle)"
  by (simp add: eval_defs after_init_def after_cluster_bundle_def after_node_bundle_def
      cong: let_weak_cong prod.case_cong_weak)

lemma step_packaging:
  "run_phases [(ManagerPhasePackaging, returns (phasePackaging empty_env))] 3 5
     after_node_bundle = (Returned (), after_packaging)"
  by (simp add: eval_defs after_init_def after_cluster_bundle_def after_node_bundle_def
      after_packaging_def cong: let_weak_cong prod.case_cong_weak)

lemma step_done:
  "run_phases [(ManagerPhaseDone, returns phaseDone)] 4 5 after_packaging =
     (Returned (), after_done)"
  by (simp add: eval_defs after_init_def after_cluster_bundle_def after_node_bundle_def
      after_packaging_def after_done_def cong: let_weak_cong prod.case_cong_weak)

lemma failed_examples:
  "phases_failed (trace new_manager) = []"
  "phases_failed (trace after_init) = []"
  "phases_failed (trace after_cluster_bundle) = []"
  "phases_failed (trace after_node_bundle) = []"
  "phases_failed (trace after_packaging) = []"
  by (simp_all add: new_manager_def after_init_def after_cluster_bundle_def
      after_node_bundle_def after_packaging_def)

lemma run_phases_empty_env:
  "run_phases (phases empty_env) 0 5 new_manager = (Returned (), after_done)"
proof -
  have "run_phases (phases empty_env) 0 5 new_manager =
      run_phases (drop 1 (phases empty_env)) 1 5 after_init"
    using run_phases_split [OF step_init _ quiet_phaseInit, of "drop 1 (phases empty_env)"]
    by (simp add: phases_def failed_examples eval_nat_numeral del: run_phases.simps)
  also have "\<dots> = run_phases (drop 2 (phases empty_env)) 2 5 after_cluster_bundle"
    using run_phases_split [OF step_cluster_bundle _ quiet_phaseCollectClusterBundle,
        of "drop 2 (phases empty_env)"]
    by (simp add: phases_def failed_examples eval_nat_numeral del: run_phases.simps)
  also have "\<dots> = run_phases (drop 3 (phases empty_env)) 3 5 after_node_bundle"
    using run_phases_split [OF step_node_bundle _ quiet_phaseCollectNodeBundles,
        of "drop 3 (phases empty_env)"]
    by (simp add: phases_def failed_examples eval_nat_numeral del: run_phases.simps)
  also have "\<dots> = run_phases (drop 4 (phases empty_env)) 4 5 after_packaging"
    using run_phases_split [OF step_packaging _ quiet_phasePackaging,
        of "drop 4 (phases empty_env)"]
    by (simp add: phases_def failed_examples eval_nat_numeral del: run_phases.simps)
  also have "\<dots> = (Returned (), after_done)"
    using step_done by (simp add: phases_def eval_nat_numeral del: run_phases.simps)
  finally show ?thesis .
qed

lemma Run_empty_env: "Run empty_env new_manager = (Returned None, after_done)"
proof -
  have c: "context_cancelled empty_env"
    by (simp add: empty_env_def good_env_def)
  have d: "context' after_done = Some SignalContext"
    by (simp add: after_done_def after_packaging_def after_node_bundle_def
        after_cluster_bundle_def after_init_def)
  show ?thesis
    by (simp add: Run_def run_phases_empty_env c d)
qed

subsection \<open>The name of the bundle directory\<close>

lemma strings_Split_nosep: "c \<notin> set ys \<Longrightarrow> strings_Split c ys = [ys]"
  by (induction ys) auto

lemma strings_Split_nonempty [simp]: "strings_Split c xs \<noteq> []"
  by (induction xs) (auto split: list.split)

lemma strings_Split_append:
  "c \<notin> set ys \<Longrightarrow>
     strings_Split c (xs @ ys) = butlast (strings_Split c xs) @ [last (strings_Split c xs) @ ys]"
proof (induction xs)
  case Nil
  then show ?case by (simp add: strings_Split_nosep)
next
  case (Cons x xs)
  then show ?case
    by (cases "strings_Split c xs") (auto split: list.split)
qed

lemma foldl_clean_step_last:
  assumes "e \<noteq> []" "e \<noteq> ''.''" "e \<noteq> ''..''"
  shows "foldl (clean_step r) st (cs @ [e]) = foldl (clean_step r) st cs @ [e]"
  using assms by (simp add: clean_step_def)

lemma strings_Join_snoc:
  "strings_Join (st @ [e]) = (if st = [] then e else strings_Join st @ ''/'' @ e)"
  by (induction st rule: strings_Join.induct) simp_all

lemma filepath_Clean_zip: "\<exists>q. filepath_Clean (p @ ''.zip'') = q @ ''.zip''"
proof -
  let ?l = "last (strings_Split (CHR ''/'') p) @ ''.zip''"
  let ?r = "hd (p @ ''.zip'') = CHR ''/''"
  let ?st = "foldl (clean_step ?r) [] (butlast (strings_Split (CHR ''/'') p))"
  have s: "strings_Split (CHR ''/'') (p @ ''.zip'') = butlast (strings_Split (CHR ''/'') p) @ [?l]"
    by (rule strings_Split_append) simp
  have l: "?l \<noteq> []" "?l \<noteq> ''.''" "?l \<noteq> ''..''"
    by (simp_all add: append_eq_Cons_conv)
  have f: "foldl (clean_step ?r) [] (strings_Split (CHR ''/'') (p @ ''.zip'')) = ?st @ [?l]"
    unfolding s by (rule foldl_clean_step_last [OF l])
  have j: "strings_Join (?st @ [?l]) =
      (if ?st = [] then last (strings_Split (CHR ''/'') p) else strings_Join ?st @ ''/'' @ last (strings_Split (CHR ''/'') p)) @ ''.zip''"
    by (simp add: strings_Join_snoc)
  show ?thesis
    unfolding filepath_Clean_def Let_def f j
    by (auto simp del: append_assoc simp add: append_assoc [symmetric])
qed

lemma filepath_Join_zip: "\<exists>q. filepath_Join [d, n @ ''.zip''] = q @ ''.zip''"
proof (cases "d = []")
  case True
  then show ?thesis
    using filepath_Clean_zip [of n] by (simp add: filepath_Join_def)
next
  case False
  then show ?thesis
    using filepath_Clean_zip [of "d @ ''/'' @ n"] by (simp add: filepath_Join_def)
qed

lemma filepath_Ext_zip: "filepath_Ext (q @ ''.zip'') = ''.zip''"
  by (simp add: filepath_Ext_def)

lemma strings_TrimSuffix_zip: "strings_TrimSuffix (n @ ''.zip'') ''.zip'' = n"
  by (simp add: strings_TrimSuffix_def strings_HasSuffix_def)

lemma bundleDir_zip:
  assumes "bundleFileName m = n @ ''.zip''"
  shows "strings_TrimSuffix (bundleFileName m) (filepath_Ext (getBundlefile m)) = n"
proof -
  from filepath_Join_zip [of "OutputDir m" n] obtain q where
    "filepath_Join [OutputDir m, n @ ''.zip''] = q @ ''.zip''" by blast
  with assms show ?thesis
    by (simp add: getBundlefile_def filepath_Ext_zip strings_TrimSuffix_zip)
qed

lemma compressBundle_cases:
  assumes "bundleFileName m = n @ ''.zip''"
  shows "compressBundle env m =
     (let m1 = emit (Rename (getWorkingDir m) (filepath_Join [OutputDir m, n])) m;
          m2 = emit (Exec (OutputDir m) [''zip'', ''-r'', getBundlefile m, n]) m1
      in case os_Rename env (getWorkingDir m) (filepath_Join [OutputDir m, n]) of
           Some e \<Rightarrow> (Some (''fail to compress bundle: '' @ e), m1)
         | None \<Rightarrow>
             (case exec_Run env (OutputDir m) [''zip'', ''-r'', getBundlefile m, n] of
                Some e \<Rightarrow> (Some (''fail to compress bundle: '' @ e), m2)
              | None \<Rightarrow>
                  (case os_Stat env (getBundlefile m) of
                     (sz, Some e) \<Rightarrow> (Some (''fail to get bundle file size: '' @ e), m2)
                   | (sz, None) \<Rightarrow>
                       (None, m2\<lparr>status := SetFileinfo (bundleFileName m) sz (status m)\<rparr>))))"
  by (simp add: compressBundle_def bundleDir_zip [OF assms] getBundlefilesize_def errors_Wrap_def
      Let_def split: option.split prod.split)

subsection \<open>The request handler\<close>

lemma verify_persisted:
  "verifyNodeBundle env (fs(file \<mapsto> body)) file = None \<longleftrightarrow>
     22 \<le> length body \<and> zip_valid env body"
  by (simp add: verifyNodeBundle_def zip_OpenReader_def)

lemma handleNodeBundle_invalid:
  assumes "\<not> (22 \<le> length body \<and> zip_valid env body)"
  shows "handleNodeBundle env r fs m node body =
     (Returned (ResponseError ''zip: not a valid zip file''),
      fs(node_bundle_path env (getWorkingDir m) node := None),
      emit (InvalidNodeBundle ''zip: not a valid zip file'') m)"
  using assms
  by (auto simp: handleNodeBundle_def verifyNodeBundle_def zip_OpenReader_def Let_def)

lemma handleNodeBundle_valid:
  assumes "22 \<le> length body" "zip_valid env body"
  shows "handleNodeBundle env r fs m node body =
     (case completeNode r m node of
        (Returned u, m') \<Rightarrow>
          (Returned ResponseOK, fs(node_bundle_path env (getWorkingDir m) node \<mapsto> body), m')
      | (Blocked, m') \<Rightarrow>
          (Blocked, fs(node_bundle_path env (getWorkingDir m) node \<mapsto> body), m')
      | (Panicked, m') \<Rightarrow>
          (Panicked, fs(node_bundle_path env (getWorkingDir m) node \<mapsto> body), m'))"
  using assms
  by (simp add: handleNodeBundle_def verifyNodeBundle_def zip_OpenReader_def Let_def)

section \<open>The claims\<close>

text \<open>
  C1, at the input where it fails. \<open>collectNodeBundles\<close> receives from \<open>m.ch\<close> and from
  nothing else: \<open>WaitTimeout\<close> is never read. When the nodes are found, the agents are
  created and some expected node is never completed (for instance, no node reports at
  all), the call blocks for ever, whatever the configured timeout \<open>t\<close>; so does the
  phase, and so does the loop of \<open>Run\<close>, which never reaches the phases after it.
\<close>

theorem collectNodeBundles_waits_forever:
  assumes "k8s_GetNodesListByLabels env (NodeSelector m) = (items, None)"
    and "agents_Create env (ImageName m) (''http://'' @ ManagerPodIP m @ '':8080'') = None"
    and "\<not> set items \<subseteq> set (handler_calls env)"
  shows "fst (collectNodeBundles env (m\<lparr>WaitTimeout := t\<rparr>)) = Blocked \<and>
    fst (phaseCollectNodeBundles env (m\<lparr>WaitTimeout := t\<rparr>)) = Blocked \<and>
    fst (run_phases ((ManagerPhaseNodeBundle, phaseCollectNodeBundles env) # rest) i n
      (m\<lparr>WaitTimeout := t\<rparr>)) = Blocked"
proof -
  have c: "fst (collectNodeBundles env x) = Blocked"
    if x: "NodeSelector x = NodeSelector m" "ImageName x = ImageName m"
      "ManagerPodIP x = ManagerPodIP m" for x
  proof -
    from assms(3) have ne: "items \<noteq> []" by auto
    let ?m3 = "emit (AgentsCreate (ImageName m) (''http://'' @ ManagerPodIP m @ '':8080''))
       (emit (ExpectedBundles (fold (\<lambda>name. AList.update name []) items []))
          (x\<lparr>ch := Some (), expectedNodes := fold (\<lambda>name. AList.update name []) items []\<rparr>))"
    have "fst ` set (expectedNodes ?m3) = set items" by (simp add: keys_fold_update)
    with assms(3) have "fst (receive_ch ?m3 (handler_calls env)) = Blocked"
      using receive_ch_blocks [of ?m3 "handler_calls env"] by simp
    then have r: "\<exists>m4. receive_ch ?m3 (handler_calls env) = (Blocked, m4)"
      by (cases "receive_ch ?m3 (handler_calls env)") simp
    from assms(1,2) ne r x show ?thesis
      by (auto simp: collectNodeBundles_def refreshNodes_def Let_def)
  qed
  have p: "fst (phaseCollectNodeBundles env x) = Blocked"
    if "NodeSelector x = NodeSelector m" "ImageName x = ImageName m"
      "ManagerPodIP x = ManagerPodIP m" for x
    using c [OF that]
    by (cases "collectNodeBundles env x") (simp add: phaseCollectNodeBundles_def)
  let ?m2 = "(emit (RunningPhase ManagerPhaseNodeBundle) (m\<lparr>WaitTimeout := t\<rparr>))\<lparr>status :=
     SetPhase ManagerPhaseNodeBundle
       (status (emit (RunningPhase ManagerPhaseNodeBundle) (m\<lparr>WaitTimeout := t\<rparr>)))\<rparr>"
  have "fst (phaseCollectNodeBundles env ?m2) = Blocked"
    by (rule p) simp_all
  then have l: "fst (run_phases ((ManagerPhaseNodeBundle, phaseCollectNodeBundles env) # rest) i n
      (m\<lparr>WaitTimeout := t\<rparr>)) = Blocked"
    by (cases "phaseCollectNodeBundles env ?m2") (simp add: Let_def)
  from c [of "m\<lparr>WaitTimeout := t\<rparr>"] p [of "m\<lparr>WaitTimeout := t\<rparr>"] l show ?thesis
    by simp
qed

theorem collectNodeBundles_waits_forever_witness:
  "fst (collectNodeBundles silent_env (new_manager\<lparr>WaitTimeout := 1\<rparr>)) = Blocked \<and>
   fst (phaseCollectNodeBundles silent_env (new_manager\<lparr>WaitTimeout := 1\<rparr>)) = Blocked"
  using collectNodeBundles_waits_forever [of silent_env new_manager "[''node-a'', ''node-b'']" 1]
  by (simp add: silent_env_def good_env_def new_manager_def)

text \<open>
  C2, amended. When the node selector matches no node, or when creating the agent
  workload fails, \<open>collectNodeBundles\<close> returns the error at once, in the empty case
  before anything is created or logged. \<open>phaseCollectNodeBundles\<close> logs that error and
  returns nil: the status is left as it was, no failure is recorded, and the loop goes
  on with the phases that follow.
\<close>

theorem phaseCollectNodeBundles_swallows_error:
  assumes "k8s_GetNodesListByLabels env (NodeSelector m) = (items, None)"
    and "items = [] \<or>
         agents_Create env (ImageName m) (''http://'' @ ManagerPodIP m @ '':8080'') \<noteq> None"
  shows "\<exists>e m'. collectNodeBundles env m = (Returned (Some e), m') \<and>
     (items = [] \<longrightarrow> e = ''no nodes are found'' \<and> trace m' = trace m) \<and>
     status m' = status m \<and>
     phaseCollectNodeBundles env m = (Returned None, emit (CollectError e) m') \<and>
     (\<forall>rest i n. \<exists>m''.
        run_phases ((ManagerPhaseNodeBundle, phaseCollectNodeBundles env) # rest) i n m =
          run_phases rest (i + 1) n m'' \<and>
        ErrorMessage (status m'') = ErrorMessage (status m) \<and>
        phases_failed (trace m'') = phases_failed (trace m))"
proof -
  have c: "\<exists>e m'. collectNodeBundles env x = (Returned (Some e), m') \<and>
     (items = [] \<longrightarrow> e = ''no nodes are found'' \<and> trace m' = trace x) \<and>
     status m' = status x \<and> phases_failed (trace m') = phases_failed (trace x)"
    if "NodeSelector x = NodeSelector m" "ImageName x = ImageName m" "ManagerPodIP x = ManagerPodIP m"
    for x
  proof (cases "items = []")
    case True
    with assms(1) that show ?thesis
      by (simp add: collectNodeBundles_def refreshNodes_def errors_New_def)
  next
    case False
    with assms(2) obtain e where
      "agents_Create env (ImageName m) (''http://'' @ ManagerPodIP m @ '':8080'') = Some e" by auto
    with False assms(1) that show ?thesis
      by (simp add: collectNodeBundles_def refreshNodes_def Let_def)
  qed
  from c [of m] obtain e m' where e: "collectNodeBundles env m = (Returned (Some e), m')"
    "items = [] \<longrightarrow> e = ''no nodes are found'' \<and> trace m' = trace m" "status m' = status m"
    by auto
  have loop: "\<exists>m''.
        run_phases ((ManagerPhaseNodeBundle, phaseCollectNodeBundles env) # rest) i n m =
          run_phases rest (i + 1) n m'' \<and>
        ErrorMessage (status m'') = ErrorMessage (status m) \<and>
        phases_failed (trace m'') = phases_failed (trace m)" for rest i n
  proof -
    let ?m2 = "(emit (RunningPhase ManagerPhaseNodeBundle) m)
       \<lparr>status := SetPhase ManagerPhaseNodeBundle (status (emit (RunningPhase ManagerPhaseNodeBundle) m))\<rparr>"
    from c [of ?m2] obtain e2 m3 where e2: "collectNodeBundles env ?m2 = (Returned (Some e2), m3)"
      "status m3 = status ?m2" "phases_failed (trace m3) = phases_failed (trace ?m2)"
      by auto
    define m'' where "m'' = emit (PhaseSucceeded ManagerPhaseNodeBundle (100 * (int i + 1) div int n))
      ((emit (CollectError e2) m3)\<lparr>status :=
         SetProgress (100 * (int i + 1) div int n) (status (emit (CollectError e2) m3))\<rparr>)"
    have "run_phases ((ManagerPhaseNodeBundle, phaseCollectNodeBundles env) # rest) i n m =
        run_phases rest (i + 1) n m''"
      using e2(1) by (simp add: m''_def phaseCollectNodeBundles_def Let_def)
    moreover have "ErrorMessage (status m'') = ErrorMessage (status m)"
      using e2(2) by (simp add: m''_def SetProgress_def SetPhase_def)
    moreover have "phases_failed (trace m'') = phases_failed (trace m)"
      using e2(3) by (simp add: m''_def)
    ultimately show ?thesis by blast
  qed
  from e loop show ?thesis
    by (simp add: phaseCollectNodeBundles_def)
qed

theorem phaseCollectNodeBundles_swallows_error_witness:
  "\<exists>m'. collectNodeBundles empty_env new_manager = (Returned (Some ''no nodes are found''), m') \<and>
     trace m' = trace new_manager \<and>
     phaseCollectNodeBundles empty_env new_manager =
       (Returned None, emit (CollectError ''no nodes are found'') m')"
  using phaseCollectNodeBundles_swallows_error [of empty_env new_manager "[]"]
  by (auto simp: empty_env_def good_env_def)

text \<open>
  C2, as stated, fails: in the run of a fresh manager in a cluster where the selector
  matches no node, \<open>Run\<close> ends in phase Done with no error in \<open>ManagerStatus\<close>, having
  entered all five phases.
\<close>

theorem NodeBundle_error_counterexample:
  "fst (Run empty_env new_manager) = Returned None \<and>
   ErrorMessage (status (snd (Run empty_env new_manager))) = None \<and>
   Phase (status (snd (Run empty_env new_manager))) = Some ManagerPhaseDone \<and>
   phases_entered (trace (snd (Run empty_env new_manager))) = all_phases"
  unfolding Run_empty_env
  by (simp add: after_done_def after_packaging_def after_node_bundle_def
      after_cluster_bundle_def after_init_def new_manager_def all_phases_def)

text \<open>
  C3. The completion signal is sent exactly once. From a state in which the channel
  exists and the signal has not been sent, with the control thread waiting, no call in
  a sequence of \<open>completeNode\<close> calls blocks; the sequence sends once when it empties
  the expected set and not at all otherwise; and once the set is empty and the signal
  sent, any further calls, for any nodes and with nobody receiving, all return and send
  nothing.
\<close>

theorem completion_signal_exactly_once:
  assumes "ch m \<noteq> None" and "\<not> done' m"
  shows "fst (completeNodes True m ns) = Returned () \<and>
    sends (snd (completeNodes True m ns)) =
      sends m + (if ns \<noteq> [] \<and> fst ` set (expectedNodes m) \<subseteq> set ns then 1 else 0) \<and>
    (done' (snd (completeNodes True m ns)) \<longleftrightarrow>
       ns \<noteq> [] \<and> fst ` set (expectedNodes m) \<subseteq> set ns) \<and>
    (done' (snd (completeNodes True m ns)) \<longrightarrow>
       fst (completeNodes False (snd (completeNodes True m ns)) later) = Returned () \<and>
       sends (snd (completeNodes False (snd (completeNodes True m ns)) later)) =
         sends (snd (completeNodes True m ns)))"
proof -
  from completeNodes_count [OF assms, of ns] obtain m1 where
    a: "completeNodes True m ns = (Returned (), m1)"
       "sends m1 = sends m + (if ns \<noteq> [] \<and> fst ` set (expectedNodes m) \<subseteq> set ns then 1 else 0)"
       "done' m1 \<longleftrightarrow> ns \<noteq> [] \<and> fst ` set (expectedNodes m) \<subseteq> set ns" by blast
  have "fst (completeNodes False m1 later) = Returned () \<and>
      sends (snd (completeNodes False m1 later)) = sends m1" if "done' m1"
    using completeNodes_after_signal [OF that, of False later] by auto
  with a show ?thesis by simp
qed

theorem completion_signal_exactly_once_witness:
  "fst (completeNodes True waiting_manager [''node-a'', ''node-x'', ''node-b'', ''node-b''])
     = Returned () \<and>
   sends (snd (completeNodes True waiting_manager
     [''node-a'', ''node-x'', ''node-b'', ''node-b''])) = 1 \<and>
   sends (snd (completeNodes False (snd (completeNodes True waiting_manager
     [''node-a'', ''node-x'', ''node-b'', ''node-b''])) [''node-a'', ''node-c''])) = 1"
  using completion_signal_exactly_once [of waiting_manager
      "[''node-a'', ''node-x'', ''node-b'', ''node-b'']" "[''node-a'', ''node-c'']"]
  by (simp add: waiting_manager_def new_manager_def sends_def)

text \<open>
  C4, amended. A call of \<open>completeNode\<close> returns no value (it returns or, at a send
  nobody receives, blocks). When the node is in the expected set the call removes it,
  leaves every other entry as it was and logs the removal (\<open>CompleteNode\<close>); otherwise
  it leaves the set unchanged and logs the warning about an unknown node
  (\<open>UnknownNode\<close>). Over any sequence of calls a node is removed at most once.
\<close>

theorem completeNode_removes:
  "(map_of (expectedNodes m) node \<noteq> None \<longrightarrow>
      map_of (expectedNodes (snd (completeNode r m node))) = (map_of (expectedNodes m))(node := None) \<and>
      (\<exists>rest. trace (snd (completeNode r m node)) =
         trace m @ CompleteNode node # rest)) \<and>
   (map_of (expectedNodes m) node = None \<longrightarrow>
      expectedNodes (snd (completeNode r m node)) = expectedNodes m \<and>
      (\<exists>rest. trace (snd (completeNode r m node)) =
         trace m @ UnknownNode node # rest)) \<and>
   fst (completeNode r m node) \<in> {Returned (), Blocked} \<and>
   removals node (trace (snd (completeNodes r m ns))) \<le> removals node (trace m) + 1"
proof -
  have a: "removals node (trace (snd (completeNodes r m ns))) \<le> removals node (trace m) + 1"
    using completeNodes_removals [of node r m ns] by (simp split: if_splits)
  have b: "fst (completeNode r m node) \<in> {Returned (), Blocked}"
    by (simp add: completeNode_def Let_def)
  show ?thesis
  proof (cases "map_of (expectedNodes m) node")
    case None
    with a b show ?thesis by (simp add: completeNode_def Let_def)
  next
    case (Some v)
    with a b completeNode_step [of r m node node] show ?thesis
      by (simp add: completeNode_def Let_def)
  qed
qed

theorem completeNode_removes_witness:
  "map_of (expectedNodes (snd (completeNode True waiting_manager ''node-a''))) ''node-a'' = None \<and>
   map_of (expectedNodes (snd (completeNode True waiting_manager ''node-a''))) ''node-b'' = Some [] \<and>
   expectedNodes (snd (completeNode True waiting_manager ''node-x'')) = expectedNodes waiting_manager \<and>
   removals ''node-a'' (trace (snd (completeNodes True waiting_manager
      [''node-a'', ''node-a'', ''node-b'', ''node-a'']))) \<le> 1"
  using completeNode_removes [of waiting_manager "''node-a''" True
      "[''node-a'', ''node-a'', ''node-b'', ''node-a'']"]
    completeNode_removes [of waiting_manager "''node-x''" True "[]"]
  by (simp add: waiting_manager_def new_manager_def removals_def)

text \<open>
  C4, as stated, fails: \<open>completeNode\<close> has no result. What a call returns for a node
  that is expected and for one that is not is the same, so no caller can read \<open>true\<close>
  or \<open>false\<close> from it.
\<close>

theorem completeNode_returns_no_value_counterexample:
  "fst (completeNode True waiting_manager ''node-a'') =
   fst (completeNode True waiting_manager ''node-x'')"
  by (simp add: completeNode_def waiting_manager_def new_manager_def Let_def AList.delete_eq emit_def)

text \<open>
  C5. \<open>Run\<close> runs the loop from index 0 over the table that pairs Init, ClusterBundle,
  NodeBundle, Packaging and Done, in this order, with \<open>phaseInit\<close>,
  \<open>phaseCollectClusterBundle\<close>, \<open>phaseCollectNodeBundles\<close>, \<open>phasePackaging\<close> and
  \<open>phaseDone\<close>. One turn of the loop logs the phase, sets it in the status and runs
  its action on that state. When the action returns nil the loop goes on with the
  remaining phases from the state the action left; when it returns an error the loop
  ends with the error recorded, whatever the remaining phases are, so none of their
  actions is run; when it blocks or panics, so does the loop. In a run that starts with
  an empty log, the phases entered are therefore a prefix of the five in their order;
  all of them but possibly the last have succeeded, and those that succeeded are as many
  as the leading actions of the table that returned nil; and when a failure is logged, it is
  the failure of the last phase entered, its error is in \<open>ManagerStatus\<close> and the status
  still names that phase.
\<close>

theorem Run_phases_in_order:
  assumes "trace m = []"
  shows "(\<exists>k \<le> 5.
      k = completed (phases env) 0 5 m \<and>
      phases_entered (trace (snd (Run env m))) = take (Suc k) all_phases \<and>
      map fst (phases_succeeded (trace (snd (Run env m)))) = take k all_phases \<and>
      (phases_failed (trace (snd (Run env m))) = [] \<and>
         ErrorMessage (status (snd (Run env m))) = ErrorMessage (status m)
       \<or> k < 5 \<and>
         (\<exists>e. phases_failed (trace (snd (Run env m))) = [(all_phases ! k, e)] \<and>
              ErrorMessage (status (snd (Run env m))) = Some e) \<and>
         Phase (status (snd (Run env m))) = Some (all_phases ! k))) \<and>
    (\<forall>name run rest i n m0 err m3.
       run ((emit (RunningPhase name) m0)\<lparr>status := SetPhase name (status m0)\<rparr>)
         = (Returned (Some err), m3) \<longrightarrow>
       run_phases ((name, run) # rest) i n m0 =
         (Returned (), emit (PhaseFailed name err) (m3\<lparr>status := SetError err (status m3)\<rparr>))) \<and>
    (\<forall>name run rest i n m0 m3.
       run ((emit (RunningPhase name) m0)\<lparr>status := SetPhase name (status m0)\<rparr>)
         = (Returned None, m3) \<longrightarrow>
       run_phases ((name, run) # rest) i n m0 =
         run_phases rest (i + 1) n
           (emit (PhaseSucceeded name (100 * (int i + 1) div int n))
              (m3\<lparr>status := SetProgress (100 * (int i + 1) div int n) (status m3)\<rparr>))) \<and>
    (\<forall>name run rest i n m0 m3.
       (run ((emit (RunningPhase name) m0)\<lparr>status := SetPhase name (status m0)\<rparr>)
          = (Blocked, m3) \<longrightarrow>
        run_phases ((name, run) # rest) i n m0 = (Blocked, m3)) \<and>
       (run ((emit (RunningPhase name) m0)\<lparr>status := SetPhase name (status m0)\<rparr>)
          = (Panicked, m3) \<longrightarrow>
        run_phases ((name, run) # rest) i n m0 = (Panicked, m3))) \<and>
    (\<forall>i n m0. run_phases [] i n m0 = (Returned (), m0)) \<and>
    snd (Run env m) =
      snd (run_phases
        [(ManagerPhaseInit, returns (phaseInit env)),
         (ManagerPhaseClusterBundle, returns (phaseCollectClusterBundle env)),
         (ManagerPhaseNodeBundle, phaseCollectNodeBundles env),
         (ManagerPhasePackaging, returns (phasePackaging env)),
         (ManagerPhaseDone, returns phaseDone)] 0 5 m) \<and>
    phases env =
        [(ManagerPhaseInit, returns (phaseInit env)),
         (ManagerPhaseClusterBundle, returns (phaseCollectClusterBundle env)),
         (ManagerPhaseNodeBundle, phaseCollectNodeBundles env),
         (ManagerPhasePackaging, returns (phasePackaging env)),
         (ManagerPhaseDone, returns phaseDone)]"
proof -
  from Run_view [of env m] obtain k where k: "k \<le> 5"
    "phases_entered (trace (snd (Run env m))) = phases_entered (trace m) @ take (Suc k) all_phases"
    "phases_succeeded (trace (snd (Run env m))) =
       phases_succeeded (trace m) @ progress_steps 0 5 (take k all_phases)"
    "phases_failed (trace (snd (Run env m))) = phases_failed (trace m) \<and>
        ErrorMessage (status (snd (Run env m))) = ErrorMessage (status m)
      \<or> k < 5 \<and>
        (\<exists>e. phases_failed (trace (snd (Run env m))) = phases_failed (trace m) @ [(all_phases ! k, e)] \<and>
             ErrorMessage (status (snd (Run env m))) = Some e) \<and>
        Phase (status (snd (Run env m))) = Some (all_phases ! k)"
    by blast
  have kc: "k = completed (phases env) 0 5 m"
    by (rule Run_completed [OF k(1) k(3)])
  have a0: "phases_entered (trace (snd (Run env m))) = take (Suc k) all_phases \<and>
      map fst (phases_succeeded (trace (snd (Run env m)))) = take k all_phases \<and>
      (phases_failed (trace (snd (Run env m))) = [] \<and>
         ErrorMessage (status (snd (Run env m))) = ErrorMessage (status m)
       \<or> k < 5 \<and>
         (\<exists>e. phases_failed (trace (snd (Run env m))) = [(all_phases ! k, e)] \<and>
              ErrorMessage (status (snd (Run env m))) = Some e) \<and>
         Phase (status (snd (Run env m))) = Some (all_phases ! k))"
    using k assms by simp
  have a: "\<exists>k \<le> 5.
      k = completed (phases env) 0 5 m \<and>
      phases_entered (trace (snd (Run env m))) = take (Suc k) all_phases \<and>
      map fst (phases_succeeded (trace (snd (Run env m)))) = take k all_phases \<and>
      (phases_failed (trace (snd (Run env m))) = [] \<and>
         ErrorMessage (status (snd (Run env m))) = ErrorMessage (status m)
       \<or> k < 5 \<and>
         (\<exists>e. phases_failed (trace (snd (Run env m))) = [(all_phases ! k, e)] \<and>
              ErrorMessage (status (snd (Run env m))) = Some e) \<and>
         Phase (status (snd (Run env m))) = Some (all_phases ! k))"
    apply (intro exI [of _ k])
    using k(1) kc a0 by blast
  have b: "\<forall>name run rest i n m0 err m3.
       run ((emit (RunningPhase name) m0)\<lparr>status := SetPhase name (status m0)\<rparr>)
         = (Returned (Some err), m3) \<longrightarrow>
       run_phases ((name, run) # rest) i n m0 =
         (Returned (), emit (PhaseFailed name err) (m3\<lparr>status := SetError err (status m3)\<rparr>))"
    using run_phases_fails by blast
  have c: "\<forall>name run rest i n m0 m3.
       run ((emit (RunningPhase name) m0)\<lparr>status := SetPhase name (status m0)\<rparr>)
         = (Returned None, m3) \<longrightarrow>
       run_phases ((name, run) # rest) i n m0 =
         run_phases rest (i + 1) n
           (emit (PhaseSucceeded name (100 * (int i + 1) div int n))
              (m3\<lparr>status := SetProgress (100 * (int i + 1) div int n) (status m3)\<rparr>))"
    using run_phases_succeeds by blast
  have d: "\<forall>name run rest i n m0 m3.
       (run ((emit (RunningPhase name) m0)\<lparr>status := SetPhase name (status m0)\<rparr>)
          = (Blocked, m3) \<longrightarrow>
        run_phases ((name, run) # rest) i n m0 = (Blocked, m3)) \<and>
       (run ((emit (RunningPhase name) m0)\<lparr>status := SetPhase name (status m0)\<rparr>)
          = (Panicked, m3) \<longrightarrow>
        run_phases ((name, run) # rest) i n m0 = (Panicked, m3))"
    using run_phases_stuck by blast
  have e: "\<forall>i n m0. run_phases [] i n m0 = (Returned (), m0)" by simp
  have g: "phases env =
        [(ManagerPhaseInit, returns (phaseInit env)),
         (ManagerPhaseClusterBundle, returns (phaseCollectClusterBundle env)),
         (ManagerPhaseNodeBundle, phaseCollectNodeBundles env),
         (ManagerPhasePackaging, returns (phasePackaging env)),
         (ManagerPhaseDone, returns phaseDone)]"
    by (simp add: phases_def)
  show ?thesis
    by (intro conjI a b c d e g Run_table)
qed

theorem Run_phases_in_order_witness:
  "trace new_manager = [] \<and>
   (\<exists>k \<le> 5.
      phases_entered (trace (snd (Run empty_env new_manager))) = take (Suc k) all_phases \<and>
      map fst (phases_succeeded (trace (snd (Run empty_env new_manager)))) = take k all_phases) \<and>
   phases_entered (trace (snd (Run empty_env new_manager))) = all_phases \<and>
   phases_failed (trace (snd (Run empty_env new_manager))) = [] \<and>
   run_phases [(ManagerPhaseDone, returns phaseDone)] 4 5 after_packaging =
     (Returned (), after_done)"
proof -
  have t: "trace new_manager = []"
    by (simp add: new_manager_def)
  have c: "phases_entered (trace (snd (Run empty_env new_manager))) = all_phases"
    "phases_failed (trace (snd (Run empty_env new_manager))) = []"
    unfolding Run_empty_env
    by (simp_all add: after_done_def after_packaging_def after_node_bundle_def
        after_cluster_bundle_def after_init_def new_manager_def all_phases_def)
  note main = Run_phases_in_order [OF t, of empty_env]
  from main [THEN conjunct1] have
    "\<exists>k \<le> 5.
      phases_entered (trace (snd (Run empty_env new_manager))) = take (Suc k) all_phases \<and>
      map fst (phases_succeeded (trace (snd (Run empty_env new_manager)))) = take k all_phases"
    by blast
  with t c step_done show ?thesis by blast
qed

text \<open>
  C6. One turn of the loop whose action returns nil sets the progress to
  \<open>100 * (i + 1) / n\<close>, \<open>i\<close> the index of the phase and \<open>n\<close> the length of the table,
  logs it and goes on; a turn whose action fails, blocks or panics leaves the progress
  as the action left it; and none of the five actions of \<open>Run\<close>, which runs the loop
  from index 0 with \<open>n = 5\<close>, changes the progress or logs one. In a run that starts
  with an empty log and progress 0, the progress recorded after the \<open>c\<close>-th successful
  phase is therefore \<open>100 * c / 5\<close>, one value for each of the leading actions of the
  table that returned nil; the status holds the last value recorded; the values recorded
  are non-decreasing and lie between 0 and 100.
\<close>

theorem Run_progress:
  assumes "trace m = []" and "Progress (status m) = 0"
  shows "(\<exists>k \<le> 5.
      k = completed (phases env) 0 5 m \<and>
      map snd (phases_succeeded (trace (snd (Run env m)))) =
        map (\<lambda>c. 100 * int c div 5) [1..<Suc k] \<and>
      Progress (status (snd (Run env m))) = 100 * int k div 5 \<and>
      sorted (Progress (status m) # map snd (phases_succeeded (trace (snd (Run env m))))) \<and>
      (\<forall>p \<in> set (map snd (phases_succeeded (trace (snd (Run env m))))). 0 \<le> p \<and> p \<le> 100)) \<and>
    (\<forall>name run rest i n m0 m3.
       run ((emit (RunningPhase name) m0)\<lparr>status := SetPhase name (status m0)\<rparr>)
         = (Returned None, m3) \<longrightarrow>
       run_phases ((name, run) # rest) i n m0 =
         run_phases rest (i + 1) n
           (emit (PhaseSucceeded name (100 * (int i + 1) div int n))
              (m3\<lparr>status := SetProgress (100 * (int i + 1) div int n) (status m3)\<rparr>)) \<and>
       Progress (status
           (emit (PhaseSucceeded name (100 * (int i + 1) div int n))
              (m3\<lparr>status := SetProgress (100 * (int i + 1) div int n) (status m3)\<rparr>))) =
         100 * (int i + 1) div int n) \<and>
    (\<forall>name run rest i n m0 err m3.
       run ((emit (RunningPhase name) m0)\<lparr>status := SetPhase name (status m0)\<rparr>)
         = (Returned (Some err), m3) \<longrightarrow>
       fst (run_phases ((name, run) # rest) i n m0) = Returned () \<and>
       Progress (status (snd (run_phases ((name, run) # rest) i n m0))) = Progress (status m3) \<and>
       phases_succeeded (trace (snd (run_phases ((name, run) # rest) i n m0))) =
         phases_succeeded (trace m3)) \<and>
    (\<forall>name run rest i n m0 m3.
       (run ((emit (RunningPhase name) m0)\<lparr>status := SetPhase name (status m0)\<rparr>)
          = (Blocked, m3) \<longrightarrow>
        run_phases ((name, run) # rest) i n m0 = (Blocked, m3)) \<and>
       (run ((emit (RunningPhase name) m0)\<lparr>status := SetPhase name (status m0)\<rparr>)
          = (Panicked, m3) \<longrightarrow>
        run_phases ((name, run) # rest) i n m0 = (Panicked, m3))) \<and>
    (\<forall>i n m0. run_phases [] i n m0 = (Returned (), m0)) \<and>
    (\<forall>p x. p \<in> set (phases env) \<longrightarrow>
       Progress (status (snd (snd p x))) = Progress (status x) \<and>
       phases_succeeded (trace (snd (snd p x))) = phases_succeeded (trace x)) \<and>
    snd (Run env m) =
      snd (run_phases
        [(ManagerPhaseInit, returns (phaseInit env)),
         (ManagerPhaseClusterBundle, returns (phaseCollectClusterBundle env)),
         (ManagerPhaseNodeBundle, phaseCollectNodeBundles env),
         (ManagerPhasePackaging, returns (phasePackaging env)),
         (ManagerPhaseDone, returns phaseDone)] 0 5 m) \<and>
    phases env =
        [(ManagerPhaseInit, returns (phaseInit env)),
         (ManagerPhaseClusterBundle, returns (phaseCollectClusterBundle env)),
         (ManagerPhaseNodeBundle, phaseCollectNodeBundles env),
         (ManagerPhasePackaging, returns (phasePackaging env)),
         (ManagerPhaseDone, returns phaseDone)]"
proof -
  from Run_view [of env m] obtain k where k: "k \<le> 5"
    "phases_succeeded (trace (snd (Run env m))) =
       phases_succeeded (trace m) @ progress_steps 0 5 (take k all_phases)"
    "Progress (status (snd (Run env m))) =
       last (Progress (status m) # map snd (progress_steps 0 5 (take k all_phases)))"
    by blast
  have kc: "k = completed (phases env) 0 5 m"
    by (rule Run_completed [OF k(1) k(2)])
  from k(1) have "k = 0 \<or> k = 1 \<or> k = 2 \<or> k = 3 \<or> k = 4 \<or> k = 5" by arith
  then have a0:
     "map snd (phases_succeeded (trace (snd (Run env m)))) =
        map (\<lambda>c. 100 * int c div 5) [1..<Suc k] \<and>
      Progress (status (snd (Run env m))) = 100 * int k div 5 \<and>
      sorted (Progress (status m) # map snd (phases_succeeded (trace (snd (Run env m))))) \<and>
      (\<forall>p \<in> set (map snd (phases_succeeded (trace (snd (Run env m))))). 0 \<le> p \<and> p \<le> 100)"
    using k assms
    by (elim disjE) (simp_all add: all_phases_def upt_rec)
  have a: "\<exists>k \<le> 5.
      k = completed (phases env) 0 5 m \<and>
      map snd (phases_succeeded (trace (snd (Run env m)))) =
        map (\<lambda>c. 100 * int c div 5) [1..<Suc k] \<and>
      Progress (status (snd (Run env m))) = 100 * int k div 5 \<and>
      sorted (Progress (status m) # map snd (phases_succeeded (trace (snd (Run env m))))) \<and>
      (\<forall>p \<in> set (map snd (phases_succeeded (trace (snd (Run env m))))). 0 \<le> p \<and> p \<le> 100)"
    apply (intro exI [of _ k])
    using k(1) kc a0 by blast
  have b: "\<forall>name run rest i n m0 m3.
       run ((emit (RunningPhase name) m0)\<lparr>status := SetPhase name (status m0)\<rparr>)
         = (Returned None, m3) \<longrightarrow>
       run_phases ((name, run) # rest) i n m0 =
         run_phases rest (i + 1) n
           (emit (PhaseSucceeded name (100 * (int i + 1) div int n))
              (m3\<lparr>status := SetProgress (100 * (int i + 1) div int n) (status m3)\<rparr>)) \<and>
       Progress (status
           (emit (PhaseSucceeded name (100 * (int i + 1) div int n))
              (m3\<lparr>status := SetProgress (100 * (int i + 1) div int n) (status m3)\<rparr>))) =
         100 * (int i + 1) div int n"
    using run_phases_succeeds by (simp add: SetProgress_def)
  have c: "\<forall>name run rest i n m0 err m3.
       run ((emit (RunningPhase name) m0)\<lparr>status := SetPhase name (status m0)\<rparr>)
         = (Returned (Some err), m3) \<longrightarrow>
       fst (run_phases ((name, run) # rest) i n m0) = Returned () \<and>
       Progress (status (snd (run_phases ((name, run) # rest) i n m0))) = Progress (status m3) \<and>
       phases_succeeded (trace (snd (run_phases ((name, run) # rest) i n m0))) =
         phases_succeeded (trace m3)"
    by (simp add: run_phases_fails SetError_def)
  have d: "\<forall>name run rest i n m0 m3.
       (run ((emit (RunningPhase name) m0)\<lparr>status := SetPhase name (status m0)\<rparr>)
          = (Blocked, m3) \<longrightarrow>
        run_phases ((name, run) # rest) i n m0 = (Blocked, m3)) \<and>
       (run ((emit (RunningPhase name) m0)\<lparr>status := SetPhase name (status m0)\<rparr>)
          = (Panicked, m3) \<longrightarrow>
        run_phases ((name, run) # rest) i n m0 = (Panicked, m3))"
    using run_phases_stuck by blast
  have e: "\<forall>i n m0. run_phases [] i n m0 = (Returned (), m0)" by simp
  have f: "\<forall>p x. p \<in> set (phases env) \<longrightarrow>
       Progress (status (snd (snd p x))) = Progress (status x) \<and>
       phases_succeeded (trace (snd (snd p x))) = phases_succeeded (trace x)"
  proof (intro allI impI)
    fix p x
    assume "p \<in> set (phases env)"
    with phases_quiet [of env] have "quiet (snd p)" by blast
    then have "loop_view (snd (snd p x)) = loop_view x" unfolding quiet_def by blast
    then show "Progress (status (snd (snd p x))) = Progress (status x) \<and>
       phases_succeeded (trace (snd (snd p x))) = phases_succeeded (trace x)"
      by (simp add: loop_view_def)
  qed
  have g: "phases env =
        [(ManagerPhaseInit, returns (phaseInit env)),
         (ManagerPhaseClusterBundle, returns (phaseCollectClusterBundle env)),
         (ManagerPhaseNodeBundle, phaseCollectNodeBundles env),
         (ManagerPhasePackaging, returns (phasePackaging env)),
         (ManagerPhaseDone, returns phaseDone)]"
    by (simp add: phases_def)
  show ?thesis
    by (intro conjI a b c d e f g Run_table)
qed

theorem Run_progress_witness:
  "trace new_manager = [] \<and> Progress (status new_manager) = 0 \<and>
   (\<exists>k \<le> 5. Progress (status (snd (Run empty_env new_manager))) = 100 * int k div 5 \<and>
      sorted (Progress (status new_manager) #
        map snd (phases_succeeded (trace (snd (Run empty_env new_manager)))))) \<and>
   map snd (phases_succeeded (trace (snd (Run empty_env new_manager)))) = [20, 40, 60, 80, 100] \<and>
   Progress (status (snd (Run empty_env new_manager))) = 100 \<and>
   Progress (status (snd (run_phases
     [(ManagerPhaseInit, returns (phaseInit empty_env))] 0 5 new_manager))) = 20 \<and>
   completed (phases empty_env) 0 5 new_manager = 5"
proof -
  have t: "trace new_manager = []" "Progress (status new_manager) = 0"
    by (simp_all add: new_manager_def)
  have c: "map snd (phases_succeeded (trace (snd (Run empty_env new_manager)))) =
      [20, 40, 60, 80, 100]"
    "Progress (status (snd (Run empty_env new_manager))) = 100"
    unfolding Run_empty_env
    by (simp_all add: after_done_def after_packaging_def after_node_bundle_def
        after_cluster_bundle_def after_init_def new_manager_def)
  have s: "Progress (status (snd (run_phases
     [(ManagerPhaseInit, returns (phaseInit empty_env))] 0 5 new_manager))) = 20"
    unfolding step_init by (simp add: after_init_def)
  note main = Run_progress [OF t, of empty_env]
  from main [THEN conjunct1] obtain k where k: "k \<le> 5"
    "k = completed (phases empty_env) 0 5 new_manager"
    "map snd (phases_succeeded (trace (snd (Run empty_env new_manager)))) =
        map (\<lambda>c. 100 * int c div 5) [1..<Suc k]"
    "Progress (status (snd (Run empty_env new_manager))) = 100 * int k div 5"
    "sorted (Progress (status new_manager) #
        map snd (phases_succeeded (trace (snd (Run empty_env new_manager)))))"
    by blast
  from k(3) have "length (map snd (phases_succeeded (trace (snd (Run empty_env new_manager))))) = k"
    by simp
  with c(1) have "k = 5" by simp
  with k(2) have n: "completed (phases empty_env) 0 5 new_manager = 5" by simp
  from k(1,4,5) have
    "\<exists>k \<le> 5. Progress (status (snd (Run empty_env new_manager))) = 100 * int k div 5 \<and>
      sorted (Progress (status new_manager) #
        map snd (phases_succeeded (trace (snd (Run empty_env new_manager)))))"
    by blast
  with t c s n show ?thesis by blast
qed

text \<open>
  C7. \<open>verifyNodeBundle\<close> accepts a file exactly when \<open>zip.OpenReader\<close> opens it; for the
  file that holds an upload that is when the upload is a valid archive. When it is not
  (the empty upload among them), the request handler answers with an error, leaves the
  expected set and the \<open>done\<close> flag as they were and only logs the failure, so
  \<open>completeNode\<close> has not run; a valid upload for the same node after that removes the
  node and, when it was the last one expected, sends the completion signal.
\<close>

theorem invalid_upload_rejected:
  "(verifyNodeBundle env fs file = None \<longleftrightarrow> zip_OpenReader env fs file = None) \<and>
   (verifyNodeBundle env (fs(file \<mapsto> body)) file = None \<longleftrightarrow>
      22 \<le> length body \<and> zip_valid env body) \<and>
   (\<not> (22 \<le> length body \<and> zip_valid env body) \<longrightarrow>
      fst (handleNodeBundle env r fs m node body) =
        Returned (ResponseError ''zip: not a valid zip file'') \<and>
      expectedNodes (snd (snd (handleNodeBundle env r fs m node body))) = expectedNodes m \<and>
      done' (snd (snd (handleNodeBundle env r fs m node body))) = done' m \<and>
      trace (snd (snd (handleNodeBundle env r fs m node body))) =
        trace m @ [InvalidNodeBundle ''zip: not a valid zip file''] \<and>
      (22 \<le> length body' \<and> zip_valid env body' \<longrightarrow>
         expectedNodes (snd (snd (handleNodeBundle env r'
             (fst (snd (handleNodeBundle env r fs m node body)))
             (snd (snd (handleNodeBundle env r fs m node body))) node body'))) =
           AList.delete node (expectedNodes m) \<and>
         (fst ` set (expectedNodes m) \<subseteq> {node} \<and> \<not> done' m \<and> ch m \<noteq> None \<longrightarrow>
            fst (handleNodeBundle env True
               (fst (snd (handleNodeBundle env r fs m node body)))
               (snd (snd (handleNodeBundle env r fs m node body))) node body') =
              Returned ResponseOK \<and>
            sends (snd (snd (handleNodeBundle env True
               (fst (snd (handleNodeBundle env r fs m node body)))
               (snd (snd (handleNodeBundle env r fs m node body))) node body'))) =
              sends m + 1))) \<and>
   \<not> (22 \<le> length ([] :: string) \<and> zip_valid env [])"
proof -
  let ?m1 = "emit (InvalidNodeBundle ''zip: not a valid zip file'') m"
  let ?fs1 = "fs(node_bundle_path env (getWorkingDir m) node := None)"
  have later: "expectedNodes (snd (snd (handleNodeBundle env r' ?fs1 ?m1 node body'))) =
        AList.delete node (expectedNodes m) \<and>
      (fst ` set (expectedNodes m) \<subseteq> {node} \<and> \<not> done' m \<and> ch m \<noteq> None \<longrightarrow>
         fst (handleNodeBundle env True ?fs1 ?m1 node body') = Returned ResponseOK \<and>
         sends (snd (snd (handleNodeBundle env True ?fs1 ?m1 node body'))) = sends m + 1)"
    if v: "22 \<le> length body'" "zip_valid env body'"
  proof -
    have a: "expectedNodes (snd (snd (handleNodeBundle env r' ?fs1 ?m1 node body'))) =
        AList.delete node (expectedNodes m)"
      using completeNode_expected [of r' ?m1 node]
      by (cases "completeNode r' ?m1 node"; cases "fst (completeNode r' ?m1 node)")
        (simp_all add: handleNodeBundle_valid [OF v])
    have b: "fst (handleNodeBundle env True ?fs1 ?m1 node body') = Returned ResponseOK \<and>
        sends (snd (snd (handleNodeBundle env True ?fs1 ?m1 node body'))) = sends m + 1"
      if "fst ` set (expectedNodes m) \<subseteq> {node}" "\<not> done' m" "ch m \<noteq> None"
    proof -
      from that have "\<not> done' ?m1" "ch ?m1 \<noteq> None" "fst ` set (expectedNodes ?m1) \<subseteq> {node}"
        by simp_all
      from completeNode_last [OF this] obtain m2 where
        "completeNode True ?m1 node = (Returned (), m2)" "sends m2 = sends ?m1 + 1" by blast
      then show ?thesis
        by (simp add: handleNodeBundle_valid [OF v])
    qed
    from a b show ?thesis by blast
  qed
  have 1: "verifyNodeBundle env fs file = None \<longleftrightarrow> zip_OpenReader env fs file = None"
    by (simp add: verifyNodeBundle_def)
  have 3: "fst (handleNodeBundle env r fs m node body) =
        Returned (ResponseError ''zip: not a valid zip file'') \<and>
      expectedNodes (snd (snd (handleNodeBundle env r fs m node body))) = expectedNodes m \<and>
      done' (snd (snd (handleNodeBundle env r fs m node body))) = done' m \<and>
      trace (snd (snd (handleNodeBundle env r fs m node body))) =
        trace m @ [InvalidNodeBundle ''zip: not a valid zip file''] \<and>
      fst (snd (handleNodeBundle env r fs m node body)) = ?fs1 \<and>
      snd (snd (handleNodeBundle env r fs m node body)) = ?m1"
    if "\<not> (22 \<le> length body \<and> zip_valid env body)"
    by (simp add: handleNodeBundle_invalid [OF that])
  have 4: "\<not> (22 \<le> length ([] :: string) \<and> zip_valid env [])" by simp
  show ?thesis
    apply (intro conjI impI 1 verify_persisted 4)
    using 3 later by simp_all
qed

theorem invalid_upload_rejected_witness:
  "fst (handleNodeBundle good_env True Map.empty waiting_manager ''node-a'' []) =
     Returned (ResponseError ''zip: not a valid zip file'') \<and>
   expectedNodes (snd (snd (handleNodeBundle good_env True Map.empty waiting_manager ''node-a'' [])))
     = expectedNodes waiting_manager \<and>
   expectedNodes (snd (snd (handleNodeBundle good_env True
       (fst (snd (handleNodeBundle good_env True Map.empty waiting_manager ''node-a'' [])))
       (snd (snd (handleNodeBundle good_env True Map.empty waiting_manager ''node-a'' [])))
       ''node-a'' (''PK'' @ [CHR 0x03, CHR 0x04] @ replicate 18 (CHR 0x00))))) =
     [(''node-b'', [])]"
proof -
  have v: "22 \<le> length (''PK'' @ [CHR 0x03, CHR 0x04] @ replicate 18 (CHR 0x00))"
    "zip_valid good_env (''PK'' @ [CHR 0x03, CHR 0x04] @ replicate 18 (CHR 0x00))"
    by (simp_all add: good_env_def)
  have d: "AList.delete ''node-a'' (expectedNodes waiting_manager) = [(''node-b'', [])]"
    by (simp add: waiting_manager_def new_manager_def AList.delete_eq)
  from invalid_upload_rejected [of good_env Map.empty _ "[]" True waiting_manager "''node-a''"
      "''PK'' @ [CHR 0x03, CHR 0x04] @ replicate 18 (CHR 0x00)" True] v d
  show ?thesis by simp
qed

text \<open>
  C8. With the bundle file named \<open>supportbundle_UID_STAMP.zip\<close>, as
  \<open>GenerateClusterBundle\<close> names it from the namespace UID and the creation time,
  \<open>compressBundle\<close> renames the working directory to \<open>supportbundle_UID_STAMP\<close> under the
  output directory and runs \<open>zip -r\<close> on that directory from the output directory. When
  the rename fails it returns the wrapped error with nothing else done; when \<open>zip\<close>
  fails it returns the wrapped error and leaves the status alone; when both succeed and
  the size of the archive is read, it returns nil with the file name and the size in
  \<open>ManagerStatus\<close>. An error of the packaging action ends the loop with the error recorded
  and no further phase entered.
\<close>

theorem compressBundle_packages:
  assumes "bundleFileName m = ''supportbundle_'' @ uid @ ''_'' @ stamp @ ''.zip''"
  shows "(os_Rename env (getWorkingDir m)
            (filepath_Join [OutputDir m, ''supportbundle_'' @ uid @ ''_'' @ stamp]) = Some e \<longrightarrow>
          compressBundle env m =
            (Some (''fail to compress bundle: '' @ e),
             emit (Rename (getWorkingDir m)
               (filepath_Join [OutputDir m, ''supportbundle_'' @ uid @ ''_'' @ stamp])) m)) \<and>
     (os_Rename env (getWorkingDir m)
            (filepath_Join [OutputDir m, ''supportbundle_'' @ uid @ ''_'' @ stamp]) = None \<and>
      exec_Run env (OutputDir m)
            [''zip'', ''-r'', getBundlefile m, ''supportbundle_'' @ uid @ ''_'' @ stamp] = Some e \<longrightarrow>
          fst (compressBundle env m) = Some (''fail to compress bundle: '' @ e) \<and>
          status (snd (compressBundle env m)) = status m) \<and>
     (os_Rename env (getWorkingDir m)
            (filepath_Join [OutputDir m, ''supportbundle_'' @ uid @ ''_'' @ stamp]) = None \<and>
      exec_Run env (OutputDir m)
            [''zip'', ''-r'', getBundlefile m, ''supportbundle_'' @ uid @ ''_'' @ stamp] = None \<and>
      os_Stat env (getBundlefile m) = (sz, None) \<longrightarrow>
          fst (compressBundle env m) = None \<and>
          trace (snd (compressBundle env m)) = trace m @
            [Rename (getWorkingDir m)
               (filepath_Join [OutputDir m, ''supportbundle_'' @ uid @ ''_'' @ stamp]),
             Exec (OutputDir m)
               [''zip'', ''-r'', getBundlefile m, ''supportbundle_'' @ uid @ ''_'' @ stamp]] \<and>
          Filename (status (snd (compressBundle env m))) = Some (bundleFileName m) \<and>
          Filesize (status (snd (compressBundle env m))) = Some sz) \<and>
     (fst (compressBundle env
             ((emit (RunningPhase ManagerPhasePackaging) m)
                \<lparr>status := SetPhase ManagerPhasePackaging (status m)\<rparr>)) = Some e \<longrightarrow>
          fst (run_phases ((ManagerPhasePackaging, returns (phasePackaging env)) # rest) i n m)
            = Returned () \<and>
          ErrorMessage (status (snd
            (run_phases ((ManagerPhasePackaging, returns (phasePackaging env)) # rest) i n m)))
            = Some e \<and>
          phases_entered (trace (snd
            (run_phases ((ManagerPhasePackaging, returns (phasePackaging env)) # rest) i n m)))
            = phases_entered (trace m) @ [ManagerPhasePackaging]) \<and>
     (fst (phaseCollectClusterBundle env m0) = None \<longrightarrow>
          bundleFileName (snd (phaseCollectClusterBundle env m0)) =
            ''supportbundle_'' @ fst (k8s_GetNamespace env (PodNamespace m0)) @ ''_''
              @ strings_Replace_colon (utils_Now env) @ ''.zip'')"
proof -
  let ?n = "''supportbundle_'' @ uid @ ''_'' @ stamp"
  from assms have a: "bundleFileName m = ?n @ ''.zip''" by simp
  note c = compressBundle_cases [OF a, of env]
  have 1: "compressBundle env m =
      (Some (''fail to compress bundle: '' @ e),
       emit (Rename (getWorkingDir m) (filepath_Join [OutputDir m, ?n])) m)"
    if "os_Rename env (getWorkingDir m) (filepath_Join [OutputDir m, ?n]) = Some e"
    using that c by (simp add: Let_def)
  have 2: "fst (compressBundle env m) = Some (''fail to compress bundle: '' @ e) \<and>
      status (snd (compressBundle env m)) = status m"
    if "os_Rename env (getWorkingDir m) (filepath_Join [OutputDir m, ?n]) = None"
      "exec_Run env (OutputDir m) [''zip'', ''-r'', getBundlefile m, ?n] = Some e"
    using that c by (simp add: Let_def)
  have 3: "fst (compressBundle env m) = None \<and>
      trace (snd (compressBundle env m)) = trace m @
        [Rename (getWorkingDir m) (filepath_Join [OutputDir m, ?n]),
         Exec (OutputDir m) [''zip'', ''-r'', getBundlefile m, ?n]] \<and>
      Filename (status (snd (compressBundle env m))) = Some (bundleFileName m) \<and>
      Filesize (status (snd (compressBundle env m))) = Some sz"
    if "os_Rename env (getWorkingDir m) (filepath_Join [OutputDir m, ?n]) = None"
      "exec_Run env (OutputDir m) [''zip'', ''-r'', getBundlefile m, ?n] = None"
      "os_Stat env (getBundlefile m) = (sz, None)"
    using that c by (simp add: Let_def SetFileinfo_def)
  let ?m2 = "(emit (RunningPhase ManagerPhasePackaging) m)
                \<lparr>status := SetPhase ManagerPhasePackaging (status m)\<rparr>"
  let ?run = "run_phases ((ManagerPhasePackaging, returns (phasePackaging env)) # rest) i n m"
  have 4: "fst ?run = Returned () \<and> ErrorMessage (status (snd ?run)) = Some e \<and>
      phases_entered (trace (snd ?run)) = phases_entered (trace m) @ [ManagerPhasePackaging]"
    if f: "fst (compressBundle env ?m2) = Some e"
  proof -
    obtain m3 where r: "compressBundle env ?m2 = (Some e, m3)"
      using f by (cases "compressBundle env ?m2") simp
    from quiet_phasePackaging [of env] have
      "loop_view (snd (returns (phasePackaging env) ?m2)) = loop_view ?m2"
      unfolding quiet_def by blast
    with r have "phases_entered (trace m3) = phases_entered (trace m) @ [ManagerPhasePackaging]"
      by (simp add: loop_view_def returns_def phasePackaging_def)
    with r show ?thesis
      by (simp add: returns_def phasePackaging_def Let_def SetError_def)
  qed
  have 5: "bundleFileName (snd (phaseCollectClusterBundle env m0)) =
      ''supportbundle_'' @ fst (k8s_GetNamespace env (PodNamespace m0)) @ ''_''
        @ strings_Replace_colon (utils_Now env) @ ''.zip''"
    if "fst (phaseCollectClusterBundle env m0) = None"
    using that
    by (simp add: phaseCollectClusterBundle_def GenerateClusterBundle_def Let_def errors_Wrap_def
        split: prod.splits option.splits)
  from 1 2 3 4 5 show ?thesis by blast
qed

theorem compressBundle_packages_witness:
  "bundleFileName after_node_bundle =
     ''supportbundle_'' @ ''8f2c'' @ ''_'' @ ''2021-03-04T05-06-07Z'' @ ''.zip'' \<and>
   fst (compressBundle good_env after_node_bundle) = None \<and>
   trace (snd (compressBundle good_env after_node_bundle)) = trace after_node_bundle @
     [Rename ''/tmp/sbk/bundle'' ''/tmp/sbk/supportbundle_8f2c_2021-03-04T05-06-07Z'',
      Exec ''/tmp/sbk'' [''zip'', ''-r'', ''/tmp/sbk/supportbundle_8f2c_2021-03-04T05-06-07Z.zip'',
        ''supportbundle_8f2c_2021-03-04T05-06-07Z'']] \<and>
   Filename (status (snd (compressBundle good_env after_node_bundle))) =
     Some ''supportbundle_8f2c_2021-03-04T05-06-07Z.zip'' \<and>
   Filesize (status (snd (compressBundle good_env after_node_bundle))) = Some 4096"
proof -
  have f: "bundleFileName after_node_bundle =
      ''supportbundle_'' @ ''8f2c'' @ ''_'' @ ''2021-03-04T05-06-07Z'' @ ''.zip''"
    "OutputDir after_node_bundle = ''/tmp/sbk''"
    by (simp_all add: after_node_bundle_def after_cluster_bundle_def after_init_def
        new_manager_def)
  have p: "getWorkingDir after_node_bundle = ''/tmp/sbk/bundle''"
    "getBundlefile after_node_bundle = ''/tmp/sbk/supportbundle_8f2c_2021-03-04T05-06-07Z.zip''"
    "filepath_Join [''/tmp/sbk'', ''supportbundle_'' @ ''8f2c'' @ ''_'' @ ''2021-03-04T05-06-07Z''] =
       ''/tmp/sbk/supportbundle_8f2c_2021-03-04T05-06-07Z''"
    by (simp_all add: getWorkingDir_def getBundlefile_def f filepath_Join_def filepath_Clean_def
        clean_step_def Let_def)
  have e: "os_Rename good_env a b = None" "exec_Run good_env c d = None"
    "os_Stat good_env x = (4096, None)" for a b c d x
    by (simp_all add: good_env_def)
  from compressBundle_packages [OF f(1), of good_env _ 4096] f p e show ?thesis
    by simp
qed

text \<open>
  C9. When the namespace list, the bundle name, the manager pod IP, the image name or the
  image pull policy is empty, \<open>phaseInit\<close> returns the error of the first failing check
  of \<open>check\<close> and changes nothing but \<open>Namespaces\<close>: no default is filled in, no
  directory is made, no client and no server is started. The run logs the failure of
  phase Init and nothing else, and records the error in \<open>ManagerStatus\<close>.
\<close>

theorem phaseInit_rejects_missing_input:
  assumes "NamespaceList m = [] \<or> BundleName m = [] \<or> ManagerPodIP m = [] \<or> ImageName m = []
     \<or> ImagePullPolicy m = []"
  shows "phaseInit env m =
       (Some (first_missing m), m\<lparr>Namespaces := strings_Split (CHR '','') (NamespaceList m)\<rparr>) \<and>
     trace (snd (Run env m)) =
       trace m @ [RunningPhase ManagerPhaseInit, PhaseFailed ManagerPhaseInit (first_missing m)] \<and>
     ErrorMessage (status (snd (Run env m))) = Some (first_missing m) \<and>
     OutputDir (snd (Run env m)) = OutputDir m"
proof -
  let ?m2 = "emit (RunningPhase ManagerPhaseInit) m
             \<lparr>status := SetPhase ManagerPhaseInit (status m)\<rparr>"
  from assms have a2: "NamespaceList ?m2 = [] \<or> BundleName ?m2 = [] \<or> ManagerPodIP ?m2 = []
     \<or> ImageName ?m2 = [] \<or> ImagePullPolicy ?m2 = []" by simp
  from phaseInit_config_error [OF a2, of env] have
    "phaseInit env ?m2 = (Some (first_missing m),
       ?m2\<lparr>Namespaces := strings_Split (CHR '','') (NamespaceList ?m2)\<rparr>)"
    by simp
  from Run_config_error [OF this] have
    "snd (Run env m) = emit (PhaseFailed ManagerPhaseInit (first_missing m))
       (?m2\<lparr>Namespaces := strings_Split (CHR '','') (NamespaceList ?m2),
             status := SetError (first_missing m) (SetPhase ManagerPhaseInit (status m))\<rparr>)"
    by (simp add: snd_Run)
  with phaseInit_config_error [OF assms, of env] show ?thesis
    by (simp add: SetError_def SetPhase_def)
qed

theorem phaseInit_rejects_missing_input_witness:
  "phaseInit good_env (new_manager\<lparr>BundleName := []\<rparr>) =
     (Some ''support bundle name is not specified'',
      new_manager\<lparr>BundleName := [], Namespaces := [''harvester-system'']\<rparr>) \<and>
   trace (snd (Run good_env (new_manager\<lparr>BundleName := []\<rparr>))) =
     [RunningPhase ManagerPhaseInit,
      PhaseFailed ManagerPhaseInit ''support bundle name is not specified''] \<and>
   ErrorMessage (status (snd (Run good_env (new_manager\<lparr>BundleName := []\<rparr>)))) =
     Some ''support bundle name is not specified''"
proof -
  have f: "first_missing (new_manager\<lparr>BundleName := []\<rparr>) = ''support bundle name is not specified''"
    by (simp add: first_missing_def new_manager_def)
  have s: "strings_Split (CHR '','') (NamespaceList (new_manager\<lparr>BundleName := []\<rparr>)) =
      [''harvester-system'']"
    by (simp add: new_manager_def)
  have t: "trace (new_manager\<lparr>BundleName := []\<rparr>) = []" "BundleName (new_manager\<lparr>BundleName := []\<rparr>) = []"
    by (simp_all add: new_manager_def)
  from phaseInit_rejects_missing_input [of "new_manager\<lparr>BundleName := []\<rparr>" good_env] t
  show ?thesis unfolding f s by simp
qed

text \<open>
  C10, at the input where it fails. \<open>m.context\<close> is assigned in \<open>phaseInit\<close> after
  \<open>check\<close>. When \<open>check\<close> rejects the configuration, the loop ends with the field
  still nil, and the receive \<open><-m.context.Done()\<close> that follows the loop panics: \<open>Run\<close>
  neither waits for the cancellation nor returns nil.
\<close>

theorem Run_panics_after_config_error:
  assumes "context' m = None"
    and "NamespaceList m = [] \<or> BundleName m = [] \<or> ManagerPodIP m = [] \<or> ImageName m = []
      \<or> ImagePullPolicy m = []"
  shows "fst (Run env m) = Panicked"
proof -
  let ?m2 = "emit (RunningPhase ManagerPhaseInit) m
             \<lparr>status := SetPhase ManagerPhaseInit (status m)\<rparr>"
  from assms(2) have a2: "NamespaceList ?m2 = [] \<or> BundleName ?m2 = [] \<or> ManagerPodIP ?m2 = []
     \<or> ImageName ?m2 = [] \<or> ImagePullPolicy ?m2 = []" by simp
  from Run_config_error [OF phaseInit_config_error [OF a2, of env]] assms(1) show ?thesis
    by (simp add: Run_def)
qed

theorem Run_panics_after_config_error_witness:
  "fst (Run good_env (new_manager\<lparr>BundleName := []\<rparr>)) = Panicked"
  using Run_panics_after_config_error [of "new_manager\<lparr>BundleName := []\<rparr>" good_env]
  by (simp add: new_manager_def)

end
